theory Spec2Isabelle
  imports
    Complex_Main
    "HOL-Library.Sublist"
    "HOL-Library.Char_ord"
    "HOL-Library.List_Lexorder"
    "HOL-Library.Product_Lexorder"
    "HOL-Library.Monad_Syntax"
begin

section \<open>Values and strings\<close>

text \<open>
  A cell of a table is a scalar: a string, an integer, a float or the empty cell (pandas'
  NaN). A float is carried as the rational it denotes; binary rounding is not modelled.
  A Python string is carried as its UTF-8 encoding: a HOL string, a character of which is
  a byte; an ASCII character is one byte, any other character two to four bytes from
  \<open>0x80\<close> on. Equality of cells is structural (Python's \<open>1 == 1.0\<close> is not modelled).
\<close>

datatype cell = VStr string | VInt int | VFlt rat | VNaN

text \<open>Python's \<open>str(n)\<close> for an integer: decimal digits, with a minus sign if negative.\<close>

definition digit_char :: "nat \<Rightarrow> char" where
  "digit_char d = char_of (of_char (CHR ''0'') + d)"

fun digits :: "nat \<Rightarrow> string" where
  "digits n = (if n < 10 then [digit_char n] else digits (n div 10) @ [digit_char (n mod 10)])"

declare digits.simps [simp del]

definition str_int :: "int \<Rightarrow> string" where
  "str_int i = (if i < 0 then CHR ''-'' # digits (nat (- i)) else digits (nat i))"

text \<open>
  \<open>str(v)\<close> of a cell. The text Python prints for a float (its shortest round-trip
  decimal) is outside this development: it is the parameter \<open>fmt\<close>, so every result
  holds for any float formatting. The empty cell prints as \<open>nan\<close>.
\<close>

fun py_str :: "(rat \<Rightarrow> string) \<Rightarrow> cell \<Rightarrow> string" where
  "py_str fmt (VStr s) = s"
| "py_str fmt (VInt i) = str_int i"
| "py_str fmt (VFlt r) = fmt r"
| "py_str fmt VNaN = ''nan''"

definition is_upper :: "char \<Rightarrow> bool" where
  "is_upper c = (CHR ''A'' \<le> c \<and> c \<le> CHR ''Z'')"

definition is_lower :: "char \<Rightarrow> bool" where
  "is_lower c = (CHR ''a'' \<le> c \<and> c \<le> CHR ''z'')"

definition is_digit :: "char \<Rightarrow> bool" where
  "is_digit c = (CHR ''0'' \<le> c \<and> c \<le> CHR ''9'')"

text \<open>
  \<open>str.lower()\<close> follows the case mappings of the Unicode tables of the Python that
  runs the program (the capital I with a dot, U+0130, becomes \<open>i\<close> and a combining dot;
  the Kelvin sign, U+212A, becomes \<open>k\<close>). These tables are outside this development:
  wherever the source calls \<open>.lower()\<close> the model applies the parameter \<open>lower\<close>, a
  function on strings, so every result holds for any case mapping, Python's among them.

  \<open>lower_ascii\<close> is the mapping on the letters A to Z alone. It is what \<open>str.lower()\<close>
  does to a string in which no character outside ASCII has a lower-case form, and it
  takes the place of \<open>lower\<close> where an example is evaluated.
\<close>

definition lower_char :: "char \<Rightarrow> char" where
  "lower_char c = (if is_upper c then char_of (of_char c + (32::nat)) else c)"

definition lower_ascii :: "string \<Rightarrow> string" where
  "lower_ascii s = map lower_char s"

text \<open>
  \<open>str.upper()\<close> is called on the keys of the role mapping only, which are ASCII words;
  on these it maps the letters a to z.
\<close>

definition upper_char :: "char \<Rightarrow> char" where
  "upper_char c = (if is_lower c then char_of (of_char c - (32::nat)) else c)"

definition py_upper :: "string \<Rightarrow> string" where
  "py_upper s = map upper_char s"

text \<open>
  The characters \<open>str.strip()\<close> removes are the 29 white-space characters of Python 3:
  tab, line feed, vertical tab, form feed, carriage return (U+0009 to U+000D), the four
  separators U+001C to U+001F, the space, the next-line control U+0085, the no-break
  space U+00A0, the Ogham space mark U+1680, the spaces U+2000 to U+200A, the line and
  paragraph separators U+2028 and U+2029, the narrow no-break space U+202F, the medium
  mathematical space U+205F and the ideographic space U+3000.
\<close>

definition whitespace :: "nat list" where
  "whitespace =
     [0x09, 0x0A, 0x0B, 0x0C, 0x0D, 0x1C, 0x1D, 0x1E, 0x1F, 0x20, 0x85, 0xA0, 0x1680,
      0x2000, 0x2001, 0x2002, 0x2003, 0x2004, 0x2005, 0x2006, 0x2007, 0x2008, 0x2009, 0x200A,
      0x2028, 0x2029, 0x202F, 0x205F, 0x3000]"

text \<open>The UTF-8 encoding of a code point, as the values of its bytes.\<close>

definition utf8 :: "nat \<Rightarrow> nat list" where
  "utf8 n =
     (if n < 0x80 then [n]
      else if n < 0x800 then [0xC0 + n div 0x40, 0x80 + n mod 0x40]
      else if n < 0x10000
        then [0xE0 + n div 0x1000, 0x80 + n div 0x40 mod 0x40, 0x80 + n mod 0x40]
      else [0xF0 + n div 0x40000, 0x80 + n div 0x1000 mod 0x40, 0x80 + n div 0x40 mod 0x40,
            0x80 + n mod 0x40])"

text \<open>The white-space characters as they stand in a string: their UTF-8 encodings.\<close>

definition space_seqs :: "string list" where
  "space_seqs =
     [[CHR 0x09], [CHR 0x0A], [CHR 0x0B], [CHR 0x0C], [CHR 0x0D],
      [CHR 0x1C], [CHR 0x1D], [CHR 0x1E], [CHR 0x1F], [CHR 0x20],
      [CHR 0xC2, CHR 0x85], [CHR 0xC2, CHR 0xA0], [CHR 0xE1, CHR 0x9A, CHR 0x80],
      [CHR 0xE2, CHR 0x80, CHR 0x80], [CHR 0xE2, CHR 0x80, CHR 0x81],
      [CHR 0xE2, CHR 0x80, CHR 0x82], [CHR 0xE2, CHR 0x80, CHR 0x83],
      [CHR 0xE2, CHR 0x80, CHR 0x84], [CHR 0xE2, CHR 0x80, CHR 0x85],
      [CHR 0xE2, CHR 0x80, CHR 0x86], [CHR 0xE2, CHR 0x80, CHR 0x87],
      [CHR 0xE2, CHR 0x80, CHR 0x88], [CHR 0xE2, CHR 0x80, CHR 0x89],
      [CHR 0xE2, CHR 0x80, CHR 0x8A], [CHR 0xE2, CHR 0x80, CHR 0xA8],
      [CHR 0xE2, CHR 0x80, CHR 0xA9], [CHR 0xE2, CHR 0x80, CHR 0xAF],
      [CHR 0xE2, CHR 0x81, CHR 0x9F], [CHR 0xE3, CHR 0x80, CHR 0x80]]"

text \<open>
  The number of bytes of the sequence of \<open>ws\<close> that opens \<open>s\<close>, 0 when none does; and
  \<open>s\<close> without the sequences of \<open>ws\<close> that open it.
\<close>

definition match_len :: "string list \<Rightarrow> string \<Rightarrow> nat" where
  "match_len ws s = (case List.find (\<lambda>w. prefix w s) ws of None \<Rightarrow> 0 | Some w \<Rightarrow> length w)"

function drop_seqs :: "string list \<Rightarrow> string \<Rightarrow> string" where
  "drop_seqs ws s = (if match_len ws s = 0 then s else drop_seqs ws (drop (match_len ws s) s))"
  by pat_completeness auto

termination
proof (relation "measure (\<lambda>p. length (snd p))")
  show "wf (measure (\<lambda>p. length (snd p)))" by (rule wf_measure)
next
  fix ws :: "string list" and s :: string
  assume n: "match_len ws s \<noteq> 0"
  have "match_len ws s \<le> length s"
  proof (cases "List.find (\<lambda>w. prefix w s) ws")
    case None
    then show ?thesis by (simp add: match_len_def)
  next
    case (Some w)
    then have "prefix w s" by (auto simp: find_Some_iff)
    then have "length w \<le> length s" by (rule prefix_length_le)
    with Some show ?thesis by (simp add: match_len_def)
  qed
  with n have "length s - match_len ws s < length s" by arith
  then show "((ws, drop (match_len ws s) s), (ws, s)) \<in> measure (\<lambda>p. length (snd p))"
    by simp
qed

declare drop_seqs.simps [simp del]

text \<open>
  \<open>str.strip()\<close>: the white space that opens the string and the white space that closes
  it are removed. (In UTF-8 no encoded character is the beginning or the end of another,
  so a sequence found at either end is a character of the string.)
\<close>

definition py_strip :: "string \<Rightarrow> string" where
  "py_strip s = rev (drop_seqs (map rev space_seqs) (rev (drop_seqs space_seqs s)))"

section \<open>The completion score (\<open>get_score\<close> in \<open>normalize_data\<close>)\<close>

definition done_words :: "string list" where
  "done_words = [''done'', ''completed'', ''finished'', ''yes'', ''y'', ''1'', ''1.0'']"

definition progress_words :: "string list" where
  "progress_words = [''in progress'', ''ongoing'', ''started'', ''wip'']"

text \<open>\<open>s = str(status_val).lower().strip()\<close>, then the two membership tests.\<close>

definition get_score :: "(rat \<Rightarrow> string) \<Rightarrow> (string \<Rightarrow> string) \<Rightarrow> cell \<Rightarrow> rat" where
  "get_score fmt lower status_val =
     (let s = py_strip (lower (py_str fmt status_val))
      in if s \<in> set done_words then 1
         else if s \<in> set progress_words then 1 / 2
         else 0)"

text \<open>
  The classification in the specification's words: a table on the trimmed, lower-cased
  text of the value.
\<close>

definition score_of_form :: "string \<Rightarrow> rat" where
  "score_of_form t =
     (if t = ''done'' \<or> t = ''completed'' \<or> t = ''finished'' \<or> t = ''yes'' \<or> t = ''y''
         \<or> t = ''1'' \<or> t = ''1.0'' then 1
      else if t = ''in progress'' \<or> t = ''ongoing'' \<or> t = ''started'' \<or> t = ''wip'' then 1 / 2
      else 0)"

definition trimmed_lower_form :: "(rat \<Rightarrow> string) \<Rightarrow> (string \<Rightarrow> string) \<Rightarrow> cell \<Rightarrow> string" where
  "trimmed_lower_form fmt lower v = py_strip (lower (py_str fmt v))"


section \<open>Schema resolution (\<open>auto_detect_schema\<close>)\<close>

definition is_alnum :: "char \<Rightarrow> bool" where
  "is_alnum c = (is_lower c \<or> is_upper c \<or> is_digit c)"

text \<open>
  \<open>re.sub(r'[^a-zA-Z0-9]', '', str(header).lower())\<close>. Every byte of a character
  outside ASCII is \<open>0x80\<close> or more, so such a character goes as a whole.
\<close>

definition normalize_header :: "(string \<Rightarrow> string) \<Rightarrow> string \<Rightarrow> string" where
  "normalize_header lower header = filter is_alnum (lower header)"

text \<open>Python's \<open>k in nm\<close> on strings: \<open>k\<close> occurs in \<open>nm\<close> as a contiguous run.\<close>

fun py_in :: "string \<Rightarrow> string \<Rightarrow> bool" where
  "py_in k [] = (k = [])"
| "py_in k (c # cs) = (prefix k (c # cs) \<or> py_in k cs)"

definition any_keyword :: "string list \<Rightarrow> string \<Rightarrow> bool" where
  "any_keyword keywords nm = list_ex (\<lambda>k. py_in k nm) keywords"

definition campus_keywords :: "string list" where
  "campus_keywords = [''campus'', ''location'', ''center'', ''branch'', ''university'']"

definition inst_keywords :: "string list" where
  "inst_keywords = [''instructor'', ''faculty'', ''trainer'', ''teacher'', ''mentor'']"

definition subject_keywords :: "string list" where
  "subject_keywords = [''subject'', ''course'', ''module'']"

definition section_keywords :: "string list" where
  "section_keywords = [''section'', ''batch'', ''group'', ''class'', ''hall'']"

definition status_keywords :: "string list" where
  "status_keywords = [''status'', ''progress'', ''completion'', ''state'', ''remarks'']"

definition week_keywords :: "string list" where
  "week_keywords = [''week'', ''target'', ''session'', ''day'']"

text \<open>The test of the status loop: a status keyword, and neither \<open>expected\<close> nor \<open>target\<close>.\<close>

definition status_ok :: "string \<Rightarrow> bool" where
  "status_ok nm =
     (any_keyword status_keywords nm \<and> \<not> py_in ''expected'' nm \<and> \<not> py_in ''target'' nm)"

text \<open>
  One loop of \<open>auto_detect_schema\<close>: the columns in their order, the first one whose
  normalized name passes the test is taken and the loop breaks; \<open>None\<close> when the loop
  runs out. (The source iterates a dict keyed by the column name; a repeated name has
  the same normalized name, so the first passing column is the same.)
\<close>

fun scan :: "(string \<Rightarrow> string) \<Rightarrow> (string \<Rightarrow> bool) \<Rightarrow> string list \<Rightarrow> string option" where
  "scan lower ok [] = None"
| "scan lower ok (col # cols) =
     (if ok (normalize_header lower col) then Some col else scan lower ok cols)"

text \<open>
  The role mapping is a dict over the six role keys, each with a column name or \<open>None\<close>
  (the role mapping of the specification has no other key; a key may be absent). It is
  carried as the list of its items in the order of its keys, which is the order
  \<open>normalize_data\<close> reads them in: the heuristic resolver below builds the keys in the
  order campus, instructor, subject, section, status, week; a mapping parsed from JSON
  has the order of the JSON text.
\<close>

datatype role = RCampus | RInstructor | RSubject | RSection | RStatus | RWeek

fun role_key :: "role \<Rightarrow> string" where
  "role_key RCampus = ''campus''"
| "role_key RInstructor = ''instructor''"
| "role_key RSubject = ''subject''"
| "role_key RSection = ''section''"
| "role_key RStatus = ''status''"
| "role_key RWeek = ''week''"

type_synonym schema_map = "(role \<times> string option) list"

text \<open>\<open>schema_map.get(k)\<close>: the column of a role, \<open>None\<close> for \<open>None\<close> and for no entry.\<close>

definition column_of :: "schema_map \<Rightarrow> role \<Rightarrow> string option" where
  "column_of m k = (case map_of m k of None \<Rightarrow> None | Some v \<Rightarrow> v)"

definition auto_detect_schema :: "(string \<Rightarrow> string) \<Rightarrow> string list \<Rightarrow> schema_map" where
  "auto_detect_schema lower cols =
     [(RCampus, scan lower (any_keyword campus_keywords) cols),
      (RInstructor, scan lower (any_keyword inst_keywords) cols),
      (RSubject, scan lower (any_keyword subject_keywords) cols),
      (RSection, scan lower (any_keyword section_keywords) cols),
      (RStatus, scan lower status_ok cols),
      (RWeek, scan lower (any_keyword week_keywords) cols)]"

text \<open>
  The resolution rule in the words of the specification, with no exclusion: the column at
  the least index whose normalized name contains a keyword of the role.
\<close>

definition first_keyword_column ::
  "(string \<Rightarrow> string) \<Rightarrow> string list \<Rightarrow> string list \<Rightarrow> string option" where
  "first_keyword_column lower keywords cols =
     List.find (\<lambda>c. \<exists>k \<in> set keywords. sublist k (normalize_header lower c)) cols"

text \<open>The same rule with the exclusion of the status role.\<close>

definition first_status_column :: "(string \<Rightarrow> string) \<Rightarrow> string list \<Rightarrow> string option" where
  "first_status_column lower cols =
     List.find (\<lambda>c. (\<exists>k \<in> set status_keywords. sublist k (normalize_header lower c))
                    \<and> \<not> sublist ''expected'' (normalize_header lower c)
                    \<and> \<not> sublist ''target'' (normalize_header lower c)) cols"

section \<open>Tables\<close>

text \<open>
  A pandas \<open>DataFrame\<close>: the column labels in their order and the rows, each row a list
  of cells, one per label. Labels may repeat (a rename can produce that).
\<close>

record frame =
  columns :: "string list"
  rows :: "cell list list"

definition wf_frame :: "frame \<Rightarrow> bool" where
  "wf_frame df = list_all (\<lambda>r. length r = length (columns df)) (rows df)"

definition positions :: "string \<Rightarrow> string list \<Rightarrow> nat list" where
  "positions name cols = filter (\<lambda>i. cols ! i = name) [0..<length cols]"

text \<open>
  \<open>df[name]\<close>: a \<open>KeyError\<close> for a label that is absent, a column (a \<open>Series\<close>) for a
  label that occurs once, and a sub-table of all the columns that carry the label when it
  occurs more than once.
\<close>

datatype selection = Missing | Series "cell list" | SubFrame "cell list list"

definition getitem :: "frame \<Rightarrow> string \<Rightarrow> selection" where
  "getitem df name =
     (case positions name (columns df) of
        [] \<Rightarrow> Missing
      | [i] \<Rightarrow> Series (map (\<lambda>r. r ! i) (rows df))
      | i # j # js \<Rightarrow> SubFrame (map (\<lambda>r. map (\<lambda>p. r ! p) (i # j # js)) (rows df)))"

text \<open>
  \<open>df[name] = vals\<close>: an absent label is appended as a new last column; a label that is
  present has its column (every column carrying it) overwritten in place.
\<close>

definition setitem :: "frame \<Rightarrow> string \<Rightarrow> cell list \<Rightarrow> frame" where
  "setitem df name vals =
     (if name \<in> set (columns df)
      then df\<lparr>rows := map2 (\<lambda>r v. map2 (\<lambda>c x. if c = name then v else x) (columns df) r)
                          (rows df) vals\<rparr>
      else df\<lparr>columns := columns df @ [name], rows := map2 (\<lambda>r v. r @ [v]) (rows df) vals\<rparr>)"

text \<open>\<open>df[name] = v\<close> with a scalar \<open>v\<close>: the same value in every row.\<close>

definition setitem_const :: "frame \<Rightarrow> string \<Rightarrow> cell \<Rightarrow> frame" where
  "setitem_const df name v = setitem df name (replicate (length (rows df)) v)"

section \<open>Normalization (\<open>normalize_data\<close>)\<close>

text \<open>
  \<open>{ v: k.upper() for k, v in schema_map.items() if v is not None }\<close>: the items are
  entered in the order of the mapping, and a later item with the same column replaces
  the earlier entry. \<open>canonical_name\<close> is \<open>k.upper()\<close>.
\<close>

definition canonical_name :: "role \<Rightarrow> string" where
  "canonical_name k = py_upper (role_key k)"

definition rename_entry :: "role \<times> string option \<Rightarrow> (string \<rightharpoonup> string) \<Rightarrow> (string \<rightharpoonup> string)" where
  "rename_entry kv d = (case snd kv of None \<Rightarrow> d | Some v \<Rightarrow> d(v \<mapsto> canonical_name (fst kv)))"

definition rename_dict :: "schema_map \<Rightarrow> (string \<rightharpoonup> string)" where
  "rename_dict m = fold rename_entry m Map.empty"

text \<open>\<open>df.rename(columns=d)\<close>: a label with an entry takes the new name, the others stay.\<close>

definition rename :: "frame \<Rightarrow> (string \<rightharpoonup> string) \<Rightarrow> frame" where
  "rename df d = df\<lparr>columns := map (\<lambda>c. case d c of None \<Rightarrow> c | Some k \<Rightarrow> k) (columns df)\<rparr>"

definition required_keys :: "string list" where
  "required_keys = [''CAMPUS'', ''INSTRUCTOR'', ''SUBJECT'', ''SECTION'', ''STATUS'', ''WEEK'']"

definition ensure_key :: "string \<Rightarrow> frame \<Rightarrow> frame" where
  "ensure_key k df = (if k \<notin> set (columns df) then setitem_const df k (VStr ''Unknown'') else df)"

datatype error = KeyError | ValueError

text \<open>
  \<open>normalize_data\<close>. When the renamed table carries the label \<open>STATUS\<close> twice, the
  selection \<open>normalized_df['STATUS']\<close> is a sub-table, \<open>apply\<close> then yields one value per
  column, labelled by the repeated column label, and the assignment to \<open>SCORE\<close> cannot
  align these labels with the rows: pandas raises \<open>ValueError\<close>.
\<close>

definition normalize_data ::
  "(rat \<Rightarrow> string) \<Rightarrow> (string \<Rightarrow> string) \<Rightarrow> frame \<Rightarrow> schema_map \<Rightarrow> error + frame" where
  "normalize_data fmt lower df m =
     (let normalized_df = rename df (rename_dict m);
          normalized_df = fold ensure_key required_keys normalized_df
      in case getitem normalized_df ''STATUS'' of
           Series statuses \<Rightarrow>
             Inr (setitem normalized_df ''SCORE''
                    (map (\<lambda>v. VFlt (get_score fmt lower v)) statuses))
         | SubFrame _ \<Rightarrow> Inl ValueError
         | Missing \<Rightarrow> Inl KeyError)"

text \<open>The cells of row \<open>i\<close> under the label \<open>name\<close> (one cell when the label occurs once).\<close>

definition field :: "frame \<Rightarrow> nat \<Rightarrow> string \<Rightarrow> cell list" where
  "field df i name = map (\<lambda>p. rows df ! i ! p) (positions name (columns df))"


section \<open>Aggregation (\<open>analytics\<close>)\<close>

text \<open>\<open>df.empty\<close>: no rows, or no columns.\<close>

definition df_empty :: "frame \<Rightarrow> bool" where
  "df_empty df = (rows df = [] \<or> columns df = [])"

text \<open>
  The aggregators read columns by label. \<open>None\<close> stands for a call that gives no result
  here: the \<open>KeyError\<close> of an absent label, or a table outside the canonical shape (a
  label carried by several columns, a \<open>SCORE\<close> cell that is not a float), on which the
  aggregations are not modelled.
\<close>

definition series :: "frame \<Rightarrow> string \<Rightarrow> cell list option" where
  "series df name = (case getitem df name of Series xs \<Rightarrow> Some xs | _ \<Rightarrow> None)"

fun as_float :: "cell \<Rightarrow> rat option" where
  "as_float (VFlt r) = Some r"
| "as_float _ = None"

definition floats :: "frame \<Rightarrow> string \<Rightarrow> rat list option" where
  "floats df name = (case series df name of None \<Rightarrow> None | Some xs \<Rightarrow> those (map as_float xs))"

definition notna :: "cell \<Rightarrow> bool" where
  "notna v = (v \<noteq> VNaN)"

text \<open>The distinct values of a column, in the order of their first appearance.\<close>

definition unique :: "'a list \<Rightarrow> 'a list" where
  "unique xs = rev (remdups (rev xs))"

text \<open>\<open>Series.nunique()\<close>: the number of distinct values, empty cells not counted.\<close>

definition nunique :: "cell list \<Rightarrow> nat" where
  "nunique xs = length (unique (filter notna xs))"

text \<open>
  \<open>groupby\<close> sorts the group keys and drops the rows whose key is empty. The order of
  keys of mixed type is numbers before strings; strings compare character by character.
\<close>

fun cell_key :: "cell \<Rightarrow> nat \<times> rat \<times> string" where
  "cell_key (VInt i) = (0, of_int i, [])"
| "cell_key (VFlt r) = (0, r, [])"
| "cell_key (VStr s) = (1, 0, s)"
| "cell_key VNaN = (2, 0, [])"

definition group_keys :: "cell list \<Rightarrow> cell list" where
  "group_keys ks = sort_key cell_key (unique (filter notna ks))"

definition pair_key :: "cell \<times> cell \<Rightarrow> (nat \<times> rat \<times> string) \<times> (nat \<times> rat \<times> string)" where
  "pair_key k = (cell_key (fst k), cell_key (snd k))"

definition group_keys2 :: "(cell \<times> cell) list \<Rightarrow> (cell \<times> cell) list" where
  "group_keys2 ks = sort_key pair_key (unique (filter (\<lambda>k. notna (fst k) \<and> notna (snd k)) ks))"

text \<open>The values of the rows whose key is \<open>k\<close>, in row order.\<close>

definition group_of :: "'k \<Rightarrow> 'k list \<Rightarrow> 'v list \<Rightarrow> 'v list" where
  "group_of k ks vs = map snd (filter (\<lambda>kv. fst kv = k) (zip ks vs))"

definition mean :: "rat list \<Rightarrow> rat" where
  "mean xs = sum_list xs / of_nat (length xs)"

text \<open>\<open>df.groupby(key)['SCORE'].mean()\<close>: the keys in order, each with the mean of its group.\<close>

definition groupby_mean :: "cell list \<Rightarrow> rat list \<Rightarrow> (cell \<times> rat) list" where
  "groupby_mean ks vs = map (\<lambda>k. (k, mean (group_of k ks vs))) (group_keys ks)"

text \<open>Rounding to one decimal, a tie going to the even digit.\<close>

definition round1 :: "rat \<Rightarrow> rat" where
  "round1 x =
     (let y = x * 10; f = \<lfloor>y\<rfloor>; d = y - of_int f
      in of_int (if d < 1 / 2 then f else if 1 / 2 < d then f + 1 else if even f then f else f + 1) / 10)"

datatype jval =
    JStr string
  | JInt int
  | JNum rat
  | JDist "(cell \<times> nat) list"
  | JRecords "(string \<times> cell) list list"

definition compute_kpis :: "frame \<Rightarrow> (string \<times> jval) list option" where
  "compute_kpis df =
     (if df_empty df then Some []
      else do {
        score \<leftarrow> floats df ''SCORE'';
        inst \<leftarrow> series df ''INSTRUCTOR'';
        campus \<leftarrow> series df ''CAMPUS'';
        subj \<leftarrow> series df ''SUBJECT'';
        let total_records = length (rows df);
        let completed_score_sum = sum_list score;
        let global_completion =
              (if total_records > 0 then completed_score_sum / of_nat total_records * 100 else 0);
        let instructor_scores = groupby_mean inst score;
        let at_risk_count = length (filter (\<lambda>km. snd km < 1 / 2) instructor_scores);
        Some [(''num_campuses'', JInt (int (nunique campus))),
              (''num_instructors'', JInt (int (nunique inst))),
              (''num_subjects'', JInt (int (nunique subj))),
              (''global_completion'', JNum (round1 global_completion)),
              (''at_risk_instructors'', JInt (int at_risk_count))]
      })"

text \<open>
  A float result of the rollup: a quotient by a zero count is an infinity or not a number
  in pandas, not an exception.
\<close>

datatype fnum = Fin rat | PInf | NInf | NaNf

text \<open>\<open>(Completed_Score_Sum / Total_Items) * 100\<close>, rounded to one decimal.\<close>

definition completion_pct :: "rat \<Rightarrow> nat \<Rightarrow> fnum" where
  "completion_pct s n =
     (if n = 0 then (if 0 < s then PInf else if s < 0 then NInf else NaNf)
      else Fin (round1 (s / of_nat n * 100)))"

text \<open>\<open>pct >= c\<close>; a comparison with not-a-number is false.\<close>

fun fge :: "fnum \<Rightarrow> rat \<Rightarrow> bool" where
  "fge (Fin r) c = (c \<le> r)"
| "fge PInf c = True"
| "fge NInf c = False"
| "fge NaNf c = False"

definition on_track :: string where
  "on_track = ''On Track '' @ [CHR 0xE2, CHR 0x9C, CHR 0x85]"

definition delayed :: string where
  "delayed = ''Delayed '' @ [CHR 0xE2, CHR 0x9A, CHR 0xA0, CHR 0xEF, CHR 0xB8, CHR 0x8F]"

definition critical :: string where
  "critical = ''Critical '' @ [CHR 0xF0, CHR 0x9F, CHR 0x94, CHR 0xB4]"

definition label_status :: "fnum \<Rightarrow> string" where
  "label_status pct = (if fge pct 80 then on_track else if fge pct 50 then delayed else critical)"

record perf_row =
  INSTRUCTOR :: cell
  CAMPUS :: cell
  Total_Items :: nat
  Completed_Score_Sum :: rat
  Completion_Pct :: fnum
  Status :: string

text \<open>
  The order of \<open>sort_values(ascending=True)\<close>: minus infinity, the finite values, plus
  infinity, and not-a-number last. Rows of equal value keep their order here; pandas does
  not promise an order among them.
\<close>

fun pct_key :: "fnum \<Rightarrow> nat \<times> rat" where
  "pct_key NInf = (0, 0)"
| "pct_key (Fin r) = (1, r)"
| "pct_key PInf = (2, 0)"
| "pct_key NaNf = (3, 0)"

text \<open>\<open>Total_Items=('SUBJECT', 'count')\<close>: \<open>count\<close> counts the cells that are not empty.\<close>

definition count_notna :: "cell list \<Rightarrow> nat" where
  "count_notna xs = length (filter notna xs)"

definition perf_group :: "(cell \<times> cell) list \<Rightarrow> cell list \<Rightarrow> rat list \<Rightarrow> cell \<times> cell \<Rightarrow> perf_row" where
  "perf_group ks subj score k =
     (let total_items = count_notna (group_of k ks subj);
          completed_score_sum = sum_list (group_of k ks score);
          pct = completion_pct completed_score_sum total_items
      in \<lparr> INSTRUCTOR = fst k, CAMPUS = snd k, Total_Items = total_items,
           Completed_Score_Sum = completed_score_sum, Completion_Pct = pct,
           Status = label_status pct \<rparr>)"

text \<open>The empty result \<open>pd.DataFrame()\<close> is the rollup without rows.\<close>

definition compute_instructor_performance :: "frame \<Rightarrow> perf_row list option" where
  "compute_instructor_performance df =
     (if df_empty df then Some []
      else do {
        inst \<leftarrow> series df ''INSTRUCTOR'';
        campus \<leftarrow> series df ''CAMPUS'';
        subj \<leftarrow> series df ''SUBJECT'';
        score \<leftarrow> floats df ''SCORE'';
        let ks = zip inst campus;
        let grouped = map (perf_group ks subj score) (group_keys2 ks);
        Some (sort_key (\<lambda>g. pct_key (Completion_Pct g)) grouped)
      })"

record risk_factors =
  campuses :: "cell list"
  instructors :: "cell list"

definition below :: "rat \<Rightarrow> (cell \<times> rat) list \<Rightarrow> cell list" where
  "below t scores = map fst (filter (\<lambda>km. snd km < t) scores)"

definition compute_risk_factors :: "frame \<Rightarrow> risk_factors option" where
  "compute_risk_factors df =
     (if df_empty df then Some \<lparr> campuses = [], instructors = [] \<rparr>
      else do {
        campus \<leftarrow> series df ''CAMPUS'';
        score \<leftarrow> floats df ''SCORE'';
        inst \<leftarrow> series df ''INSTRUCTOR'';
        let campus_scores = groupby_mean campus score;
        let risky_campuses = below (3 / 5) campus_scores;
        let inst_scores = groupby_mean inst score;
        let risky_instructors = below (1 / 2) inst_scores;
        Some \<lparr> campuses = risky_campuses, instructors = risky_instructors \<rparr>
      })"

text \<open>
  \<open>Series.value_counts()\<close>: each distinct value that is not empty with the number of its
  rows, the most frequent first (values of equal count in the order of first appearance).
\<close>

definition value_counts :: "cell list \<Rightarrow> (cell \<times> nat) list" where
  "value_counts xs =
     sort_key (\<lambda>kn. - int (snd kn)) (map (\<lambda>k. (k, count_list xs k)) (unique (filter notna xs)))"

definition preferred_cols :: "string list" where
  "preferred_cols = [''INSTRUCTOR'', ''CAMPUS'', ''SUBJECT'', ''SECTION'', ''STATUS'']"

text \<open>
  One row as a dict over the kept labels (\<open>to_dict(orient='records')\<close>); of several
  columns with one label the last one is the dict's entry.
\<close>

definition record_of :: "frame \<Rightarrow> string list \<Rightarrow> cell list \<Rightarrow> (string \<times> cell) list" where
  "record_of df cols r = map (\<lambda>c. (c, r ! last (positions c (columns df)))) cols"

text \<open>\<open>df[df['SCORE'] < 0.5]\<close>: the rows below one half, in row order.\<close>

definition risk_rows :: "frame \<Rightarrow> rat list \<Rightarrow> cell list list" where
  "risk_rows df score = map fst (filter (\<lambda>rs. snd rs < 1 / 2) (zip (rows df) score))"

definition build_ai_summary :: "frame \<Rightarrow> string \<Rightarrow> (string \<times> jval) list option" where
  "build_ai_summary df context =
     (if df_empty df
      then Some [(''context'', JStr context), (''error'', JStr ''No data available in current filter'')]
      else do {
        score \<leftarrow> floats df ''SCORE'';
        status \<leftarrow> series df ''STATUS'';
        inst \<leftarrow> series df ''INSTRUCTOR'';
        campus \<leftarrow> series df ''CAMPUS'';
        let total_records = length (rows df);
        let avg_completion = mean score * 100;
        let status_dist = value_counts status;
        let risk_df = risk_rows df score;
        let cols_to_keep = filter (\<lambda>c. c \<in> set (columns df)) preferred_cols;
        let at_risk_items =
              (if risk_df \<noteq> [] then map (record_of df cols_to_keep) (take 5 risk_df) else []);
        let summary =
              [(''context'', JStr context),
               (''total_records'', JInt (int total_records)),
               (''average_completion_pct'', JNum (round1 avg_completion)),
               (''status_distribution'', JDist status_dist),
               (''at_risk_preview'', JRecords at_risk_items),
               (''risk_count'', JInt (int (length risk_df))),
               (''unique_instructors'', JInt (int (nunique inst))),
               (''unique_campuses'', JInt (int (nunique campus)))];
        if ''SECTION'' \<in> set (columns df)
        then do {
          sec \<leftarrow> series df ''SECTION'';
          Some (summary @ [(''active_sections'', JInt (int (nunique sec)))])
        }
        else Some summary
      })"


section \<open>Normalization in closed form\<close>

text \<open>
  The steps of \<open>normalize_data\<close> written out, for the proofs. \<open>renamed\<close> is the list
  of column labels after \<open>df.rename\<close>; \<open>missing_keys\<close> are the canonical names that no
  column carries then, in the order of \<open>required_keys\<close>; \<open>add_cols\<close> appends columns
  that hold \<open>Unknown\<close> in every row; \<open>normalized\<close> is the table before the score is
  assigned.
\<close>

definition add_cols :: "frame \<Rightarrow> string list \<Rightarrow> frame" where
  "add_cols df ms = df\<lparr>columns := columns df @ ms,
       rows := map (\<lambda>r. r @ replicate (length ms) (VStr ''Unknown'')) (rows df)\<rparr>"

definition renamed :: "frame \<Rightarrow> schema_map \<Rightarrow> string list" where
  "renamed df m = columns (rename df (rename_dict m))"

definition missing_keys :: "frame \<Rightarrow> schema_map \<Rightarrow> string list" where
  "missing_keys df m = filter (\<lambda>k. k \<notin> set (renamed df m)) required_keys"

definition normalized :: "frame \<Rightarrow> schema_map \<Rightarrow> frame" where
  "normalized df m = add_cols (rename df (rename_dict m)) (missing_keys df m)"

text \<open>
  The cells of a row under a label, the row after one cell assignment, and the score cell
  computed from the cell at position \<open>p\<close>.
\<close>

definition cells :: "string list \<Rightarrow> cell list \<Rightarrow> string \<Rightarrow> cell list" where
  "cells cols r k = map (\<lambda>p. r ! p) (positions k cols)"

definition set_cell :: "string list \<Rightarrow> string \<Rightarrow> cell list \<Rightarrow> cell \<Rightarrow> cell list" where
  "set_cell cols name r v =
     (if name \<in> set cols then map2 (\<lambda>c x. if c = name then v else x) cols r else r @ [v])"

definition score_row :: "(rat \<Rightarrow> string) \<Rightarrow> (string \<Rightarrow> string) \<Rightarrow> nat \<Rightarrow> cell list \<Rightarrow> cell" where
  "score_row fmt lower p = (\<lambda>r. VFlt (get_score fmt lower (r ! p)))"

definition pad :: "frame \<Rightarrow> schema_map \<Rightarrow> cell list \<Rightarrow> cell list" where
  "pad df m r = r @ replicate (length (missing_keys df m)) (VStr ''Unknown'')"

definition out_columns :: "frame \<Rightarrow> schema_map \<Rightarrow> string list" where
  "out_columns df m =
     (if ''SCORE'' \<in> set (columns (normalized df m)) then columns (normalized df m)
      else columns (normalized df m) @ [''SCORE''])"

definition out_row ::
  "(rat \<Rightarrow> string) \<Rightarrow> (string \<Rightarrow> string) \<Rightarrow> frame \<Rightarrow> schema_map \<Rightarrow> nat \<Rightarrow> cell list \<Rightarrow> cell list" where
  "out_row fmt lower df m p r =
     set_cell (columns (normalized df m)) ''SCORE'' (pad df m r)
       (score_row fmt lower p (pad df m r))"

text \<open>
  The roles whose value is the column \<open>c\<close>, in the order of the mapping; the roles that
  have a column; and the order of the keys in the mapping of the heuristic resolver.
\<close>

definition roles_of :: "schema_map \<Rightarrow> string \<Rightarrow> role list" where
  "roles_of m c = map fst (filter (\<lambda>kv. snd kv = Some c) m)"

definition assigned :: "schema_map \<Rightarrow> role list" where
  "assigned m = map fst (filter (\<lambda>kv. snd kv \<noteq> None) m)"

definition role_order :: "role list" where
  "role_order = [RCampus, RInstructor, RSubject, RSection, RStatus, RWeek]"

text \<open>The labels of the preview: the preferred ones that the table has.\<close>

definition kept_cols :: "frame \<Rightarrow> string list" where
  "kept_cols df = filter (\<lambda>c. c \<in> set (columns df)) preferred_cols"

section \<open>Example tables\<close>

definition example_columns :: "string list" where
  "example_columns =
     [''Center'', ''Trainer Name'', ''Module'', ''Batch No'', ''Current State'', ''Week No'']"

text \<open>
  A float formatting for the examples: the integer part, a point and one decimal digit,
  which is what Python prints for a non-negative float with one decimal (0.0, 0.5, 1.0).
\<close>

definition fmt1 :: "rat \<Rightarrow> string" where
  "fmt1 r = str_int \<lfloor>r\<rfloor> @ ''.'' @ digits (nat \<lfloor>(r - of_int \<lfloor>r\<rfloor>) * 10\<rfloor>)"

text \<open>
  Two headers with a character outside ASCII: \<open>SECT\<close>, the capital I with a dot
  (U+0130), \<open>ON\<close>; and \<open>Progress Tar\<close>, the Kelvin sign (U+212A), \<open>get\<close>.
  \<open>lower_headers\<close> gives for each of them the text \<open>str.lower()\<close> gives (\<open>secti\<close>,
  the combining dot U+0307, \<open>on\<close>; and \<open>progress tarkget\<close>).
\<close>

definition dotted_header :: string where
  "dotted_header = ''SECT'' @ [CHR 0xC4, CHR 0xB0] @ ''ON''"

definition kelvin_header :: string where
  "kelvin_header = ''Progress Tar'' @ [CHR 0xE2, CHR 0x84, CHR 0xAA] @ ''get''"

definition lower_headers :: "string \<Rightarrow> string" where
  "lower_headers s =
     (if s = dotted_header then ''secti'' @ [CHR 0xCC, CHR 0x87] @ ''on''
      else if s = kelvin_header then ''progress tarkget''
      else lower_ascii s)"

definition unset_schema :: schema_map where
  "unset_schema = [(RCampus, None), (RInstructor, None), (RSubject, None), (RSection, None),
                   (RStatus, None), (RWeek, None)]"

definition example_raw :: frame where
  "example_raw = \<lparr> columns = example_columns,
      rows = [[VStr ''North'', VStr ''Asha'', VStr ''Algebra'', VStr ''B1'', VStr ''Done'', VInt 1],
              [VStr ''North'', VStr ''Asha'', VStr ''Logic'', VStr ''B1'', VStr ''pending'', VInt 2],
              [VStr ''South'', VStr ''Ravi'', VStr ''Algebra'', VStr ''B2'', VStr '' WIP '', VInt 1]] \<rparr>"

text \<open>Two roles share the first column; no column is named as a canonical field.\<close>

definition shared_raw :: frame where
  "shared_raw = \<lparr> columns = [''Course Status'', ''Center''],
                  rows = [[VStr ''done'', VStr ''North''], [VStr ''wip'', VStr ''South'']] \<rparr>"

text \<open>Two roles share the first column, and a raw column is already named \<open>SUBJECT\<close>.\<close>

definition shared_named_raw :: frame where
  "shared_named_raw = \<lparr> columns = [''Course Status'', ''SUBJECT''],
                        rows = [[VStr ''done'', VStr ''Maths'']] \<rparr>"

definition shared_named_out :: frame where
  "shared_named_out =
     \<lparr> columns = [''STATUS'', ''SUBJECT'', ''CAMPUS'', ''INSTRUCTOR'', ''SECTION'', ''WEEK'', ''SCORE''],
       rows = [[VStr ''done'', VStr ''Maths'', VStr ''Unknown'', VStr ''Unknown'', VStr ''Unknown'',
                VStr ''Unknown'', VFlt 1]] \<rparr>"

text \<open>A raw column is already named \<open>STATUS\<close>; no role is set.\<close>

definition status_named_raw :: frame where
  "status_named_raw = \<lparr> columns = [''STATUS''], rows = [[VStr ''done'']] \<rparr>"

definition status_named_out :: frame where
  "status_named_out =
     \<lparr> columns = [''STATUS'', ''CAMPUS'', ''INSTRUCTOR'', ''SUBJECT'', ''SECTION'', ''WEEK'', ''SCORE''],
       rows = [[VStr ''done'', VStr ''Unknown'', VStr ''Unknown'', VStr ''Unknown'', VStr ''Unknown'',
                VStr ''Unknown'', VFlt 1]] \<rparr>"

text \<open>A canonical table: what \<open>normalize_data\<close> returns for a table of five rows.\<close>

definition canon_raw :: frame where
  "canon_raw = \<lparr> columns = example_columns,
      rows = [[VStr ''North'', VStr ''Asha'', VStr ''Algebra'', VStr ''B1'', VStr ''Done'', VInt 1],
              [VStr ''North'', VStr ''Asha'', VStr ''Logic'', VStr ''B1'', VStr ''pending'', VInt 2],
              [VStr ''North'', VStr ''Asha'', VStr ''Sets'', VStr ''B1'', VNaN, VInt 3],
              [VStr ''South'', VStr ''Ravi'', VStr ''Algebra'', VStr ''B2'', VStr '' WIP '', VInt 1],
              [VStr ''South'', VStr ''Ravi'', VStr ''Logic'', VStr ''B2'', VStr ''yes'', VInt 2]] \<rparr>"

definition canon_table :: frame where
  "canon_table =
     \<lparr> columns = [''CAMPUS'', ''INSTRUCTOR'', ''SUBJECT'', ''SECTION'', ''STATUS'', ''WEEK'', ''SCORE''],
       rows = [[VStr ''North'', VStr ''Asha'', VStr ''Algebra'', VStr ''B1'', VStr ''Done'', VInt 1, VFlt 1],
               [VStr ''North'', VStr ''Asha'', VStr ''Logic'', VStr ''B1'', VStr ''pending'', VInt 2, VFlt 0],
               [VStr ''North'', VStr ''Asha'', VStr ''Sets'', VStr ''B1'', VNaN, VInt 3, VFlt 0],
               [VStr ''South'', VStr ''Ravi'', VStr ''Algebra'', VStr ''B2'', VStr '' WIP '', VInt 1,
                VFlt (1 / 2)],
               [VStr ''South'', VStr ''Ravi'', VStr ''Logic'', VStr ''B2'', VStr ''yes'', VInt 2, VFlt 1]] \<rparr>"

text \<open>A table with an empty cell in the subject column, and what \<open>normalize_data\<close> returns for it.\<close>

definition gap_raw :: frame where
  "gap_raw = \<lparr> columns = [''Center'', ''Trainer'', ''Module'', ''Status''],
      rows = [[VStr ''North'', VStr ''Asha'', VNaN, VStr ''done''],
              [VStr ''North'', VStr ''Asha'', VStr ''Algebra'', VStr ''done'']] \<rparr>"

definition gap_table :: frame where
  "gap_table =
     \<lparr> columns = [''CAMPUS'', ''INSTRUCTOR'', ''SUBJECT'', ''STATUS'', ''SECTION'', ''WEEK'', ''SCORE''],
       rows = [[VStr ''North'', VStr ''Asha'', VNaN, VStr ''done'', VStr ''Unknown'', VStr ''Unknown'',
                VFlt 1],
               [VStr ''North'', VStr ''Asha'', VStr ''Algebra'', VStr ''done'', VStr ''Unknown'',
                VStr ''Unknown'', VFlt 1]] \<rparr>"

text \<open>What \<open>normalize_data\<close> returns for \<open>shared_raw\<close>, where no section role is resolved.\<close>

definition shared_out :: frame where
  "shared_out =
     \<lparr> columns = [''STATUS'', ''CAMPUS'', ''INSTRUCTOR'', ''SUBJECT'', ''SECTION'', ''WEEK'', ''SCORE''],
       rows = [[VStr ''done'', VStr ''North'', VStr ''Unknown'', VStr ''Unknown'', VStr ''Unknown'',
                VStr ''Unknown'', VFlt 1],
               [VStr ''wip'', VStr ''South'', VStr ''Unknown'', VStr ''Unknown'', VStr ''Unknown'',
                VStr ''Unknown'', VFlt (1 / 2)]] \<rparr>"

definition empty_table :: frame where
  "empty_table =
     \<lparr> columns = [''CAMPUS'', ''INSTRUCTOR'', ''SUBJECT'', ''SECTION'', ''STATUS'', ''WEEK'', ''SCORE''],
       rows = [] \<rparr>"

text \<open>The rollup of \<open>canon_table\<close>, of \<open>gap_table\<close>, and the digest of \<open>shared_out\<close>.\<close>

definition canon_perf :: "perf_row list" where
  "canon_perf =
     [\<lparr> INSTRUCTOR = VStr ''Asha'', CAMPUS = VStr ''North'', Total_Items = 3,
         Completed_Score_Sum = 1, Completion_Pct = Fin (333 / 10), Status = critical \<rparr>,
      \<lparr> INSTRUCTOR = VStr ''Ravi'', CAMPUS = VStr ''South'', Total_Items = 2,
         Completed_Score_Sum = 3 / 2, Completion_Pct = Fin 75, Status = delayed \<rparr>]"

definition gap_perf :: "perf_row list" where
  "gap_perf =
     [\<lparr> INSTRUCTOR = VStr ''Asha'', CAMPUS = VStr ''North'', Total_Items = 1,
         Completed_Score_Sum = 2, Completion_Pct = Fin 200, Status = on_track \<rparr>]"

definition shared_digest :: "(string \<times> jval) list" where
  "shared_digest =
     [(''context'', JStr ''overall''), (''total_records'', JInt 2),
      (''average_completion_pct'', JNum 75),
      (''status_distribution'', JDist [(VStr ''done'', 1), (VStr ''wip'', 1)]),
      (''at_risk_preview'', JRecords []), (''risk_count'', JInt 0),
      (''unique_instructors'', JInt 1), (''unique_campuses'', JInt 2),
      (''active_sections'', JInt 1)]"

section \<open>Properties of the score\<close>

lemma space_seqs_utf8: "map (map of_char) space_seqs = map utf8 whitespace"
  by (simp add: space_seqs_def whitespace_def utf8_def)

lemma no_empty_seq: "[] \<notin> set space_seqs" "[] \<notin> set (map rev space_seqs)"
  by (simp_all add: space_seqs_def)

lemma match_len_zero:
  assumes "[] \<notin> set ws" "match_len ws s = 0" "w \<in> set ws"
  shows "\<not> prefix w s"
proof (cases "List.find (\<lambda>w. prefix w s) ws")
  case None
  then show ?thesis using assms(3) by (auto simp: find_None_iff)
next
  case (Some u)
  then have "u \<in> set ws" by (auto simp: find_Some_iff in_set_conv_nth)
  moreover have "u = []" using Some assms(2) by (simp add: match_len_def)
  ultimately show ?thesis using assms(1) by simp
qed

lemma match_len_pos:
  assumes "match_len ws s \<noteq> 0"
  obtains w where "w \<in> set ws" "s = w @ drop (match_len ws s) s"
proof -
  from assms obtain w where f: "List.find (\<lambda>w. prefix w s) ws = Some w"
    by (auto simp: match_len_def split: option.splits)
  then have w: "w \<in> set ws" "prefix w s" by (auto simp: find_Some_iff in_set_conv_nth)
  from f have "match_len ws s = length w" by (simp add: match_len_def)
  with w(2) have "s = w @ drop (match_len ws s) s" by (auto simp: prefix_def)
  with w(1) that show ?thesis by blast
qed

text \<open>
  What \<open>drop_seqs\<close> removes is a run of sequences of \<open>ws\<close>, and no sequence opens what
  it leaves.
\<close>

lemma drop_seqs_stop: "match_len ws (drop_seqs ws s) = 0"
proof (induction ws s rule: drop_seqs.induct)
  case (1 ws s)
  show ?case
  proof (cases "match_len ws s = 0")
    case True
    then show ?thesis by (subst drop_seqs.simps) simp
  next
    case False
    then show ?thesis using 1 by (subst drop_seqs.simps) simp
  qed
qed

lemma drop_seqs_run: "\<exists>us. set us \<subseteq> set ws \<and> s = concat us @ drop_seqs ws s"
proof (induction ws s rule: drop_seqs.induct)
  case (1 ws s)
  show ?case
  proof (cases "match_len ws s = 0")
    case True
    then have "drop_seqs ws s = s" by (subst drop_seqs.simps) simp
    then have "set [] \<subseteq> set ws \<and> s = concat [] @ drop_seqs ws s" by simp
    then show ?thesis by blast
  next
    case False
    then obtain w where w: "w \<in> set ws" "s = w @ drop (match_len ws s) s"
      by (rule match_len_pos)
    let ?t = "drop (match_len ws s) s"
    from False 1 obtain us where us: "set us \<subseteq> set ws" "?t = concat us @ drop_seqs ws ?t"
      by blast
    have d: "drop_seqs ws s = drop_seqs ws ?t"
      using False by (subst drop_seqs.simps) simp
    have "s = concat (w # us) @ drop_seqs ws s"
      using w(2) us(2) d by (metis append.assoc concat.simps(2))
    moreover have "set (w # us) \<subseteq> set ws" using w(1) us(1) by simp
    ultimately show ?thesis by blast
  qed
qed

text \<open>
  What \<open>py_strip\<close> does: the string is a run of white-space characters, the result, and
  a run of white-space characters; no white-space character opens or closes the result.
\<close>

lemma py_strip_trims:
  "\<exists>us vs. set us \<subseteq> set space_seqs \<and> set vs \<subseteq> set space_seqs
      \<and> s = concat us @ py_strip s @ concat vs"
proof -
  let ?t = "drop_seqs space_seqs s"
  obtain us where us: "set us \<subseteq> set space_seqs" "s = concat us @ ?t"
    using drop_seqs_run by blast
  obtain ws where ws: "set ws \<subseteq> set (map rev space_seqs)"
    "rev ?t = concat ws @ drop_seqs (map rev space_seqs) (rev ?t)"
    using drop_seqs_run by blast
  have "rev (rev ?t) = rev (concat ws @ drop_seqs (map rev space_seqs) (rev ?t))"
    using ws(2) by simp
  then have t: "?t = py_strip s @ concat (map rev (rev ws))"
    by (simp add: py_strip_def rev_concat)
  have "set (map rev (rev ws)) \<subseteq> set space_seqs"
    using ws(1) by auto
  moreover have "s = concat us @ py_strip s @ concat (map rev (rev ws))"
    using us(2) t by simp
  ultimately show ?thesis using us(1) by blast
qed

lemma py_strip_ends:
  assumes "w \<in> set space_seqs"
  shows "\<not> prefix w (py_strip s)" and "\<not> suffix w (py_strip s)"
proof -
  let ?t = "drop_seqs space_seqs s"
  let ?u = "drop_seqs (map rev space_seqs) (rev ?t)"
  have p: "py_strip s = rev ?u" by (simp add: py_strip_def)
  obtain ws where "rev ?t = concat ws @ ?u" using drop_seqs_run by blast
  then have "rev (rev ?t) = rev (concat ws @ ?u)" by simp
  then have "?t = py_strip s @ rev (concat ws)" by (simp add: p)
  then have "prefix (py_strip s) ?t" by (rule prefixI)
  moreover have "\<not> prefix w ?t"
    using no_empty_seq(1) drop_seqs_stop assms by (rule match_len_zero)
  ultimately show "\<not> prefix w (py_strip s)" using prefix_order.trans by blast
  have "rev w \<in> set (map rev space_seqs)" using assms by simp
  with no_empty_seq(2) drop_seqs_stop have "\<not> prefix (rev w) ?u" by (rule match_len_zero)
  then show "\<not> suffix w (py_strip s)" by (simp add: p suffix_to_prefix)
qed

text \<open>
  Claim C1. For every status value (a string, a number or the empty cell) the score is one
  of 0, 1/2 and 1, and it is the value the classification table of the specification
  gives for the trimmed, lower-cased text of the value: 1 for \<open>done\<close>, \<open>completed\<close>,
  \<open>finished\<close>, \<open>yes\<close>, \<open>y\<close>, \<open>1\<close>, \<open>1.0\<close>; 1/2 for \<open>in progress\<close>, \<open>ongoing\<close>,
  \<open>started\<close>, \<open>wip\<close>; 0 for any other text. The text is \<open>str(v).lower().strip()\<close>:
  the lower-cased text of the value is a run of white-space characters, this text, and a
  run of white-space characters, and no white-space character opens or closes this
  text. \<open>get_score\<close> has no failing branch.
\<close>

theorem get_score_classifies:
  "get_score fmt lower v = score_of_form (trimmed_lower_form fmt lower v)
   \<and> get_score fmt lower v \<in> {0, 1 / 2, 1}
   \<and> (\<exists>us vs. set us \<subseteq> set space_seqs \<and> set vs \<subseteq> set space_seqs
         \<and> lower (py_str fmt v) = concat us @ trimmed_lower_form fmt lower v @ concat vs)
   \<and> (\<forall>w \<in> set space_seqs. \<not> prefix w (trimmed_lower_form fmt lower v)
         \<and> \<not> suffix w (trimmed_lower_form fmt lower v))"
proof -
  have a: "get_score fmt lower v = score_of_form (trimmed_lower_form fmt lower v)"
    unfolding get_score_def score_of_form_def trimmed_lower_form_def Let_def
      done_words_def progress_words_def
    by simp
  have b: "score_of_form t \<in> {0, 1 / 2, 1}" for t
    by (simp add: score_of_form_def)
  show ?thesis
    unfolding a trimmed_lower_form_def
    using b py_strip_trims [of "lower (py_str fmt v)"] py_strip_ends [of _ "lower (py_str fmt v)"]
    by blast
qed

theorem get_score_classifies_witness:
  "get_score fmt1 lower_ascii (VStr '' Done  '') = 1
   \<and> get_score fmt1 lower_ascii (VStr (''done'' @ [CHR 0xC2, CHR 0xA0])) = 1
   \<and> get_score fmt1 lower_ascii (VStr ''WIP'') = 1 / 2
   \<and> get_score fmt1 lower_ascii (VInt 1) = 1
   \<and> get_score fmt1 lower_ascii (VFlt 1) = 1
   \<and> get_score fmt1 lower_ascii (VStr ''pending'') = 0
   \<and> get_score fmt1 lower_ascii VNaN = 0"
proof -
  have a: "trimmed_lower_form fmt1 lower_ascii (VStr '' Done  '') = ''done''" by code_simp
  have a': "trimmed_lower_form fmt1 lower_ascii (VStr (''done'' @ [CHR 0xC2, CHR 0xA0])) = ''done''"
    by code_simp
  have b: "trimmed_lower_form fmt1 lower_ascii (VStr ''WIP'') = ''wip''" by code_simp
  have c: "trimmed_lower_form fmt1 lower_ascii (VInt 1) = ''1''" by code_simp
  have d: "trimmed_lower_form fmt1 lower_ascii (VFlt 1) = ''1.0''" by code_simp
  have e: "trimmed_lower_form fmt1 lower_ascii (VStr ''pending'') = ''pending''" by code_simp
  have f: "trimmed_lower_form fmt1 lower_ascii VNaN = ''nan''" by code_simp
  note g = get_score_classifies [THEN conjunct1]
  show ?thesis
    unfolding g [of fmt1 lower_ascii "VStr '' Done  ''"]
      g [of fmt1 lower_ascii "VStr (''done'' @ [CHR 0xC2, CHR 0xA0])"]
      g [of fmt1 lower_ascii "VStr ''WIP''"] g [of fmt1 lower_ascii "VInt 1"]
      g [of fmt1 lower_ascii "VFlt 1"] g [of fmt1 lower_ascii "VStr ''pending''"]
      g [of fmt1 lower_ascii VNaN] a a' b c d e f
    by (simp add: score_of_form_def)
qed

section \<open>Properties of schema resolution\<close>

lemma py_in_sublist: "py_in k s = sublist k s"
  by (induction s) (auto simp: sublist_Cons_right)

lemma any_keyword_iff: "any_keyword kws nm = (\<exists>k \<in> set kws. sublist k nm)"
  by (simp add: any_keyword_def list_ex_iff py_in_sublist)

lemma scan_find: "scan lower ok cols = List.find (\<lambda>c. ok (normalize_header lower c)) cols"
  by (induction cols) auto

lemma scan_keywords: "scan lower (any_keyword kws) cols = first_keyword_column lower kws cols"
  by (simp add: scan_find first_keyword_column_def any_keyword_iff)

lemma scan_status: "scan lower status_ok cols = first_status_column lower cols"
  by (simp add: scan_find first_status_column_def status_ok_def any_keyword_iff py_in_sublist)

text \<open>
  What \<open>first_keyword_column\<close> says: the result is the column at the least index whose
  normalized name contains a keyword, and it is unset exactly when no column does.
\<close>

lemma first_keyword_column_Some:
  "first_keyword_column lower kws cols = Some c \<longleftrightarrow>
     (\<exists>i < length cols. cols ! i = c \<and> (\<exists>k \<in> set kws. sublist k (normalize_header lower c))
        \<and> (\<forall>j < i. \<not> (\<exists>k \<in> set kws. sublist k (normalize_header lower (cols ! j)))))"
  unfolding first_keyword_column_def find_Some_iff by auto

lemma first_keyword_column_None:
  "first_keyword_column lower kws cols = None \<longleftrightarrow>
     (\<forall>c \<in> set cols. \<not> (\<exists>k \<in> set kws. sublist k (normalize_header lower c)))"
  unfolding first_keyword_column_def find_None_iff by auto

lemma first_status_column_Some:
  "first_status_column lower cols = Some c \<Longrightarrow>
     c \<in> set cols \<and> (\<exists>k \<in> set status_keywords. sublist k (normalize_header lower c))
     \<and> \<not> sublist ''expected'' (normalize_header lower c)
     \<and> \<not> sublist ''target'' (normalize_header lower c)"
  unfolding first_status_column_def find_Some_iff by auto

lemma status_column: "column_of (auto_detect_schema lower cols) RStatus = first_status_column lower cols"
  by (simp add: auto_detect_schema_def column_of_def scan_status)

text \<open>
  Two headers outside ASCII, with the text \<open>str.lower()\<close> gives for them: the capital I
  with a dot becomes \<open>i\<close> and a combining dot, and the header is a section column; the
  Kelvin sign becomes \<open>k\<close>, so the header does not contain \<open>target\<close> and is a status
  column.
\<close>

lemma dotted_header_example:
  "column_of (auto_detect_schema lower_headers [dotted_header]) RSection = Some dotted_header"
  by code_simp

lemma kelvin_header_example:
  "column_of (auto_detect_schema lower_headers [kelvin_header]) RStatus = Some kelvin_header"
  by code_simp

text \<open>
  Claim C3, as amended. For every list of columns, each of the roles campus, instructor,
  subject, section and week is assigned the first column, in the order of the table,
  whose normalized name contains one of the role's keywords, and is unset when there is
  none. The status role is assigned the first such column among those whose normalized
  name contains neither \<open>expected\<close> nor \<open>target\<close>. For the columns Center, Trainer Name,
  Module, Batch No, Current State, Week No the six roles are assigned these six columns
  in this order.
\<close>

theorem auto_detect_schema_first_match:
  "auto_detect_schema lower cols =
     [(RCampus, first_keyword_column lower campus_keywords cols),
      (RInstructor, first_keyword_column lower inst_keywords cols),
      (RSubject, first_keyword_column lower subject_keywords cols),
      (RSection, first_keyword_column lower section_keywords cols),
      (RStatus, first_status_column lower cols),
      (RWeek, first_keyword_column lower week_keywords cols)]
   \<and> auto_detect_schema lower_ascii example_columns =
       [(RCampus, Some ''Center''), (RInstructor, Some ''Trainer Name''),
        (RSubject, Some ''Module''), (RSection, Some ''Batch No''),
        (RStatus, Some ''Current State''), (RWeek, Some ''Week No'')]"
proof -
  have "auto_detect_schema lower_ascii example_columns =
       [(RCampus, Some ''Center''), (RInstructor, Some ''Trainer Name''),
        (RSubject, Some ''Module''), (RSection, Some ''Batch No''),
        (RStatus, Some ''Current State''), (RWeek, Some ''Week No'')]"
    by code_simp
  then show ?thesis
    by (simp add: auto_detect_schema_def scan_keywords scan_status)
qed

theorem auto_detect_schema_first_match_witness:
  "column_of (auto_detect_schema lower_ascii [''Week'', ''Branch'']) RCampus = Some ''Branch''
   \<and> column_of (auto_detect_schema lower_ascii [''Week'', ''Branch'']) RSubject = None"
proof -
  have a: "first_keyword_column lower_ascii campus_keywords [''Week'', ''Branch''] = Some ''Branch''"
    by code_simp
  have b: "first_keyword_column lower_ascii subject_keywords [''Week'', ''Branch''] = None"
    by code_simp
  show ?thesis
    using auto_detect_schema_first_match [of lower_ascii "[''Week'', ''Branch'']"] a b
    by (simp add: column_of_def)
qed

text \<open>
  The claim as stated fails for the status role: in the columns Expected Progress, Status
  the first column whose normalized name contains a status keyword is Expected Progress
  (it contains \<open>progress\<close>), and the status role is assigned Status.
\<close>

theorem auto_detect_schema_status_counterexample:
  "column_of (auto_detect_schema lower_ascii [''Expected Progress'', ''Status'']) RStatus
     \<noteq> first_keyword_column lower_ascii status_keywords [''Expected Progress'', ''Status'']"
proof -
  have a: "column_of (auto_detect_schema lower_ascii [''Expected Progress'', ''Status'']) RStatus
             = Some ''Status''"
    by code_simp
  have b: "first_keyword_column lower_ascii status_keywords [''Expected Progress'', ''Status'']
             = Some ''Expected Progress''"
    by code_simp
  show ?thesis unfolding a b by simp
qed

text \<open>
  Claim C4. The column assigned to the status role is a column of the table whose
  normalized name contains a status keyword and contains neither \<open>expected\<close> nor
  \<open>target\<close>; for the columns Status, Expected Progress the status role is Status.
\<close>

theorem status_excludes_expected_target:
  "(column_of (auto_detect_schema lower cols) RStatus = Some c \<longrightarrow>
      c \<in> set cols \<and> (\<exists>k \<in> set status_keywords. sublist k (normalize_header lower c))
      \<and> \<not> sublist ''expected'' (normalize_header lower c)
      \<and> \<not> sublist ''target'' (normalize_header lower c))
   \<and> column_of (auto_detect_schema lower_ascii [''Status'', ''Expected Progress'']) RStatus
       = Some ''Status''"
proof -
  have "column_of (auto_detect_schema lower_ascii [''Status'', ''Expected Progress'']) RStatus
          = Some ''Status''"
    by code_simp
  then show ?thesis
    using first_status_column_Some [of lower cols c] by (simp add: status_column)
qed

theorem status_excludes_expected_target_witness:
  "column_of (auto_detect_schema lower_ascii [''Target State'', ''Expected Progress'', ''Remarks''])
       RStatus = Some ''Remarks''
   \<and> \<not> sublist ''expected'' (normalize_header lower_ascii ''Remarks'')
   \<and> \<not> sublist ''target'' (normalize_header lower_ascii ''Remarks'')"
proof -
  have a: "column_of (auto_detect_schema lower_ascii
              [''Target State'', ''Expected Progress'', ''Remarks'']) RStatus = Some ''Remarks''"
    by code_simp
  show ?thesis
    using status_excludes_expected_target
      [of lower_ascii "[''Target State'', ''Expected Progress'', ''Remarks'']" "''Remarks''"] a
    by simp
qed

section \<open>Properties of normalization\<close>

lemma map2_replicate: "map2 f xs (replicate (length xs) v) = map (\<lambda>x. f x v) xs"
  by (induction xs) auto

lemma setitem_const_absent:
  "k \<notin> set (columns df) \<Longrightarrow> setitem_const df k (VStr ''Unknown'') = add_cols df [k]"
  by (simp add: setitem_const_def setitem_def add_cols_def map2_replicate)

lemma add_cols_Nil: "add_cols df [] = df"
  by (simp add: add_cols_def)

lemma add_cols_add_cols: "add_cols (add_cols df [k]) ms = add_cols df (k # ms)"
  by (simp add: add_cols_def replicate_append_same)

lemma fold_ensure_key:
  "distinct ks \<Longrightarrow> fold ensure_key ks df = add_cols df (filter (\<lambda>k. k \<notin> set (columns df)) ks)"
proof (induction ks arbitrary: df)
  case Nil
  then show ?case by (simp add: add_cols_Nil)
next
  case (Cons k ks)
  show ?case
  proof (cases "k \<in> set (columns df)")
    case True
    then show ?thesis using Cons by (simp add: ensure_key_def)
  next
    case False
    have f: "filter (\<lambda>x. x \<notin> set (columns (add_cols df [k]))) ks = filter (\<lambda>x. x \<notin> set (columns df)) ks"
      using Cons.prems by (auto simp: add_cols_def intro!: filter_cong)
    show ?thesis using False Cons
      by (simp add: ensure_key_def setitem_const_absent f add_cols_add_cols)
  qed
qed

lemma length_positions: "length (positions k cs) = count_list cs k"
proof (induction cs rule: rev_induct)
  case Nil
  then show ?case by (simp add: positions_def)
next
  case (snoc c cs)
  have "filter (\<lambda>i. (cs @ [c]) ! i = k) [0..<length cs] = filter (\<lambda>i. cs ! i = k) [0..<length cs]"
    by (rule filter_cong) (auto simp: nth_append)
  then show ?case using snoc by (simp add: positions_def)
qed

lemma positions_append:
  "positions k (cs @ ds) = positions k cs @ map (\<lambda>i. length cs + i) (positions k ds)"
proof -
  have a: "filter (\<lambda>i. (cs @ ds) ! i = k) [0..<length cs] = filter (\<lambda>i. cs ! i = k) [0..<length cs]"
    by (rule filter_cong) (auto simp: nth_append)
  have b: "[length cs..<length cs + length ds] = map (\<lambda>i. length cs + i) [0..<length ds]"
    by (simp add: map_add_upt add.commute)
  have "[0..<length cs + length ds] = [0..<length cs] @ [length cs..<length cs + length ds]"
    by (rule upt_add_eq_append) simp
  then show ?thesis
    unfolding positions_def by (simp add: a b filter_map comp_def)
qed

lemma positions_single: "positions k [c] = (if c = k then [0] else [])"
  by (simp add: positions_def)

lemma set_positions: "set (positions k cs) = {i. i < length cs \<and> cs ! i = k}"
  by (auto simp: positions_def)

lemma fields_zip:
  "length r = length cs \<Longrightarrow>
     map (\<lambda>p. r ! p) (positions k cs) = map snd (filter (\<lambda>cx. fst cx = k) (zip cs r))"
proof (induction cs arbitrary: r rule: rev_induct)
  case Nil
  then show ?case by (simp add: positions_def)
next
  case (snoc c cs)
  then obtain r' x where r: "r = r' @ [x]" "length r' = length cs"
    by (cases r rule: rev_cases) auto
  have "map (\<lambda>p. (r' @ [x]) ! p) (positions k cs) = map (\<lambda>p. r' ! p) (positions k cs)"
    by (rule map_cong) (auto simp: set_positions nth_append r)
  then show ?case using snoc.IH [of r'] r
    by (simp add: positions_append positions_single nth_append)
qed

lemma distinct_required_keys: "distinct required_keys"
  by (simp add: required_keys_def)

lemma fold_ensure_normalized:
  "fold ensure_key required_keys (rename df (rename_dict m)) = normalized df m"
  by (simp add: fold_ensure_key distinct_required_keys normalized_def missing_keys_def renamed_def)

lemma columns_normalized: "columns (normalized df m) = renamed df m @ missing_keys df m"
  by (simp add: normalized_def add_cols_def renamed_def)

lemma rows_normalized:
  "rows (normalized df m) =
     map (\<lambda>r. r @ replicate (length (missing_keys df m)) (VStr ''Unknown'')) (rows df)"
  by (simp add: normalized_def add_cols_def rename_def)

lemma length_renamed: "length (renamed df m) = length (columns df)"
  by (simp add: renamed_def rename_def)

lemma required_in_normalized: "set required_keys \<subseteq> set (columns (normalized df m))"
  by (auto simp: columns_normalized missing_keys_def)

lemma count_list_distinct: "distinct xs \<Longrightarrow> x \<in> set xs \<Longrightarrow> count_list xs x = 1"
  by (induction xs) auto

lemma count_missing:
  "k \<in> set required_keys \<Longrightarrow>
     count_list (missing_keys df m) k = (if k \<in> set (renamed df m) then 0 else 1)"
proof -
  assume k: "k \<in> set required_keys"
  have d: "distinct (missing_keys df m)"
    by (simp add: missing_keys_def distinct_required_keys)
  show ?thesis
  proof (cases "k \<in> set (renamed df m)")
    case True
    then have "k \<notin> set (missing_keys df m)" by (simp add: missing_keys_def)
    then show ?thesis using True by (simp add: count_list_0_iff)
  next
    case False
    then have "k \<in> set (missing_keys df m)" using k by (simp add: missing_keys_def)
    then show ?thesis using False d by (simp add: count_list_distinct)
  qed
qed

lemma count_status_normalized:
  "count_list (columns (normalized df m)) ''STATUS'' =
     (if ''STATUS'' \<in> set (renamed df m) then count_list (renamed df m) ''STATUS'' else 1)"
proof -
  have "''STATUS'' \<in> set required_keys" by (simp add: required_keys_def)
  then show ?thesis
    by (simp add: columns_normalized count_missing count_list_0_iff)
qed

lemma positions_one:
  assumes "count_list cs k = 1"
  obtains p where "positions k cs = [p]" "p < length cs" "cs ! p = k"
proof -
  from assms have "length (positions k cs) = 1" by (simp add: length_positions)
  then obtain p where p: "positions k cs = [p]"
    by (cases "positions k cs") auto
  then have "p \<in> set (positions k cs)" by simp
  then have "p < length cs" "cs ! p = k" by (auto simp: set_positions)
  with p that show ?thesis by blast
qed

lemma map2_map_same: "map2 g xs (map f xs) = map (\<lambda>x. g x (f x)) xs"
  by (induction xs) auto

lemma setitem_map:
  "setitem df name (map f (rows df)) =
     df\<lparr>columns := (if name \<in> set (columns df) then columns df else columns df @ [name]),
        rows := map (\<lambda>r. set_cell (columns df) name r (f r)) (rows df)\<rparr>"
  by (simp add: setitem_def set_cell_def map2_map_same)

lemma normalize_data_Inr:
  assumes "count_list (renamed df m) ''STATUS'' \<le> 1"
  obtains p where "positions ''STATUS'' (columns (normalized df m)) = [p]"
    and "normalize_data fmt lower df m =
          Inr (setitem (normalized df m) ''SCORE'' (map (score_row fmt lower p) (rows (normalized df m))))"
proof -
  have "count_list (columns (normalized df m)) ''STATUS'' = 1"
  proof (cases "''STATUS'' \<in> set (renamed df m)")
    case True
    then have "count_list (renamed df m) ''STATUS'' \<noteq> 0" by (simp add: count_list_0_iff)
    with assms True show ?thesis by (simp add: count_status_normalized)
  next
    case False
    then show ?thesis by (simp add: count_status_normalized)
  qed
  then obtain p where p: "positions ''STATUS'' (columns (normalized df m)) = [p]"
    by (rule positions_one)
  have "normalize_data fmt lower df m =
          Inr (setitem (normalized df m) ''SCORE'' (map (score_row fmt lower p) (rows (normalized df m))))"
    by (simp add: normalize_data_def Let_def fold_ensure_normalized getitem_def p score_row_def comp_def)
  with p that show ?thesis by blast
qed

lemma normalize_data_Inl:
  assumes "1 < count_list (renamed df m) ''STATUS''"
  shows "normalize_data fmt lower df m = Inl ValueError"
proof -
  have "''STATUS'' \<in> set (renamed df m)"
    using assms by (metis count_list_0_iff not_less_zero)
  then have "1 < length (positions ''STATUS'' (columns (normalized df m)))"
    using assms by (simp add: length_positions count_status_normalized)
  then obtain i j js where "positions ''STATUS'' (columns (normalized df m)) = i # j # js"
    by (cases "positions ''STATUS'' (columns (normalized df m))" rule: list.exhaust)
       (auto simp: neq_Nil_conv)
  then show ?thesis
    by (simp add: normalize_data_def Let_def fold_ensure_normalized getitem_def)
qed

lemma cells_zip:
  "length r = length cols \<Longrightarrow> cells cols r k = map snd (filter (\<lambda>cx. fst cx = k) (zip cols r))"
  by (simp add: cells_def fields_zip)

lemma cells_absent: "k \<notin> set cols \<Longrightarrow> cells cols r k = []"
proof -
  assume "k \<notin> set cols"
  then have "count_list cols k = 0" by simp
  then have "positions k cols = []" by (simp add: length_positions [symmetric])
  then show ?thesis by (simp add: cells_def)
qed

lemma cells_append:
  "length r = length cols \<Longrightarrow> length us = length ms \<Longrightarrow>
     cells (cols @ ms) (r @ us) k = cells cols r k @ cells ms us k"
  by (simp add: cells_zip)

lemma cells_replicate: "cells ms (replicate (length ms) u) k = replicate (count_list ms k) u"
proof -
  have "map snd (filter (\<lambda>cx. fst cx = k) (zip ms (replicate (length ms) u)))
          = replicate (count_list ms k) u"
    by (induction ms) auto
  then show ?thesis by (simp add: cells_zip)
qed

lemma length_set_cell:
  "length r = length cols \<Longrightarrow>
     length (set_cell cols name r v) = length (if name \<in> set cols then cols else cols @ [name])"
  by (simp add: set_cell_def)

lemma nth_set_cell:
  "length r = length cols \<Longrightarrow> j < length cols \<Longrightarrow> cols ! j \<noteq> name \<Longrightarrow>
     set_cell cols name r v ! j = r ! j"
  by (simp add: set_cell_def nth_append)

lemma zip_overwrite:
  "length r = length cols \<Longrightarrow>
     zip cols (map2 (\<lambda>c x. if c = name then v else x) cols r) =
       map (\<lambda>cx. (fst cx, if fst cx = name then v else snd cx)) (zip cols r)"
  by (induction r cols rule: list_induct2) auto

lemma cells_set_cell_other:
  assumes "length r = length cols" "k \<noteq> name"
  shows "cells (if name \<in> set cols then cols else cols @ [name]) (set_cell cols name r v) k
           = cells cols r k"
proof (cases "name \<in> set cols")
  case True
  have l: "length (map2 (\<lambda>c x. if c = name then v else x) cols r) = length cols"
    using assms by simp
  have "map snd (filter (\<lambda>cx. fst cx = k)
          (map (\<lambda>cx. (fst cx, if fst cx = name then v else snd cx)) (zip cols r)))
        = map snd (filter (\<lambda>cx. fst cx = k) (zip cols r))"
    using assms(2) by (induction "zip cols r" arbitrary: cols r) (auto simp: filter_map comp_def)
  then show ?thesis using True assms
    by (simp add: set_cell_def cells_zip [OF l] cells_zip [OF assms(1)] zip_overwrite)
next
  case False
  have "cells (cols @ [name]) (r @ [v]) k = cells cols r k @ cells [name] [v] k"
    using assms by (simp add: cells_append)
  moreover have "cells [name] [v] k = []"
    using assms(2) by (simp add: cells_absent)
  ultimately show ?thesis using False by (simp add: set_cell_def)
qed

lemma cells_set_cell_same:
  assumes "length r = length cols"
  shows "cells (if name \<in> set cols then cols else cols @ [name]) (set_cell cols name r v) name
           = replicate (if name \<in> set cols then count_list cols name else 1) v"
proof (cases "name \<in> set cols")
  case True
  have l: "length (map2 (\<lambda>c x. if c = name then v else x) cols r) = length cols"
    using assms by simp
  have "map snd (filter (\<lambda>cx. fst cx = name)
          (map (\<lambda>cx. (fst cx, if fst cx = name then v else snd cx)) (zip cols r)))
        = replicate (count_list cols name) v"
    using assms by (induction r cols rule: list_induct2) auto
  then show ?thesis using True assms
    by (simp add: set_cell_def cells_zip [OF l] zip_overwrite)
next
  case False
  have "cells (cols @ [name]) (r @ [v]) name = cells cols r name @ cells [name] [v] name"
    using assms by (simp add: cells_append)
  moreover have "cells [name] [v] name = [v]"
    by (simp add: cells_def positions_single)
  ultimately show ?thesis using False by (simp add: set_cell_def cells_absent)
qed

lemma normalize_data_out:
  assumes "count_list (renamed df m) ''STATUS'' \<le> 1"
  obtains p where "positions ''STATUS'' (columns (normalized df m)) = [p]"
    and "normalize_data fmt lower df m =
           Inr \<lparr>columns = out_columns df m, rows = map (out_row fmt lower df m p) (rows df)\<rparr>"
proof -
  obtain p where p: "positions ''STATUS'' (columns (normalized df m)) = [p]"
    and n: "normalize_data fmt lower df m =
          Inr (setitem (normalized df m) ''SCORE'' (map (score_row fmt lower p) (rows (normalized df m))))"
    using assms by (rule normalize_data_Inr)
  have "setitem (normalized df m) ''SCORE'' (map (score_row fmt lower p) (rows (normalized df m)))
          = \<lparr>columns = out_columns df m, rows = map (out_row fmt lower df m p) (rows df)\<rparr>"
    unfolding setitem_map
    by (simp add: out_columns_def out_row_def pad_def rows_normalized comp_def)
  with p n that show ?thesis by simp
qed

lemma wf_nth: "wf_frame df \<Longrightarrow> i < length (rows df) \<Longrightarrow> length (rows df ! i) = length (columns df)"
  by (simp add: wf_frame_def list_all_length)

lemma length_pad:
  "length r = length (columns df) \<Longrightarrow> length (pad df m r) = length (columns (normalized df m))"
  by (simp add: pad_def columns_normalized length_renamed)

lemma length_out_row:
  "length r = length (columns df) \<Longrightarrow> length (out_row fmt lower df m p r) = length (out_columns df m)"
  by (simp add: out_row_def out_columns_def length_set_cell length_pad)

lemma cells_pad:
  assumes "length r = length (columns df)"
  shows "cells (columns (normalized df m)) (pad df m r) k
           = cells (renamed df m) r k @ replicate (count_list (missing_keys df m) k) (VStr ''Unknown'')"
  using assms
  by (simp add: columns_normalized pad_def cells_append length_renamed cells_replicate)

lemma cells_out_row_other:
  assumes "length r = length (columns df)" "k \<noteq> ''SCORE''"
  shows "cells (out_columns df m) (out_row fmt lower df m p r) k
           = cells (renamed df m) r k @ replicate (count_list (missing_keys df m) k) (VStr ''Unknown'')"
proof -
  let ?cs = "columns (normalized df m)"
  have "cells (if ''SCORE'' \<in> set ?cs then ?cs else ?cs @ [''SCORE''])
          (set_cell ?cs ''SCORE'' (pad df m r) (score_row fmt lower p (pad df m r))) k
        = cells ?cs (pad df m r) k"
    by (rule cells_set_cell_other [OF length_pad [OF assms(1)] assms(2)])
  then show ?thesis using cells_pad [OF assms(1), of m k]
    by (simp add: out_columns_def out_row_def)
qed

lemma cells_out_row_score:
  assumes "length r = length (columns df)"
  shows "\<exists>n > 0. cells (out_columns df m) (out_row fmt lower df m p r) ''SCORE''
           = replicate n (score_row fmt lower p (pad df m r))"
proof -
  let ?cs = "columns (normalized df m)"
  have "cells (out_columns df m) (out_row fmt lower df m p r) ''SCORE''
      = replicate (if ''SCORE'' \<in> set ?cs then count_list ?cs ''SCORE'' else 1) (score_row fmt lower p (pad df m r))"
    using cells_set_cell_same [OF length_pad [OF assms]]
    by (simp add: out_columns_def out_row_def)
  moreover have "0 < (if ''SCORE'' \<in> set ?cs then count_list ?cs ''SCORE'' else 1)"
    using count_list_0_iff [of ?cs "''SCORE''"] by auto
  ultimately show ?thesis by blast
qed

lemma nth_out_row:
  assumes "length r = length (columns df)" "j < length (columns df)" "out_columns df m ! j \<noteq> ''SCORE''"
  shows "out_row fmt lower df m p r ! j = r ! j"
proof -
  let ?cs = "columns (normalized df m)"
  have j: "j < length ?cs" using assms(2) by (simp add: columns_normalized length_renamed)
  then have "out_columns df m ! j = ?cs ! j" by (simp add: out_columns_def nth_append)
  then have "?cs ! j \<noteq> ''SCORE''" using assms(3) by simp
  then have "out_row fmt lower df m p r ! j = pad df m r ! j"
    using nth_set_cell [OF length_pad [OF assms(1)] j] by (simp add: out_row_def)
  then show ?thesis using assms by (simp add: pad_def nth_append)
qed

lemma take_out_columns: "take (length (columns df)) (out_columns df m) = renamed df m"
  by (simp add: out_columns_def columns_normalized length_renamed)

lemma required_out_columns:
  "set required_keys \<subseteq> set (out_columns df m) \<and> ''SCORE'' \<in> set (out_columns df m)"
  using required_in_normalized [of df m] by (auto simp: out_columns_def)

lemma canonical_name_simps:
  "canonical_name RCampus = ''CAMPUS''" "canonical_name RInstructor = ''INSTRUCTOR''"
  "canonical_name RSubject = ''SUBJECT''" "canonical_name RSection = ''SECTION''"
  "canonical_name RStatus = ''STATUS''" "canonical_name RWeek = ''WEEK''"
  by code_simp+

lemma canonical_required: "canonical_name k \<in> set required_keys"
  by (cases k) (simp_all add: canonical_name_simps required_keys_def)

lemma canonical_inj: "canonical_name k = canonical_name k' \<Longrightarrow> k = k'"
  by (cases k; cases k') (simp_all add: canonical_name_simps)

lemma fold_rename_entry:
  "fold rename_entry kvs d c =
     (case filter (\<lambda>kv. snd kv = Some c) kvs of
        [] \<Rightarrow> d c
      | x # xs \<Rightarrow> Some (canonical_name (fst (last (x # xs)))))"
proof (induction kvs arbitrary: d)
  case Nil
  then show ?case by simp
next
  case (Cons kv kvs)
  show ?case
  proof (cases "snd kv = Some c")
    case True
    then have "rename_entry kv d = d(c \<mapsto> canonical_name (fst kv))"
      by (simp add: rename_entry_def)
    with True show ?thesis
      by (simp add: Cons.IH split: list.splits)
  next
    case False
    then have "rename_entry kv d c = d c"
      by (auto simp: rename_entry_def split: option.splits)
    with False show ?thesis by (simp add: Cons.IH split: list.splits)
  qed
qed

text \<open>The entry of a column in the rename dict: the last of the roles that have it.\<close>

lemma rename_dict_roles:
  "rename_dict m c =
     (if roles_of m c = [] then None else Some (canonical_name (last (roles_of m c))))"
  by (simp add: rename_dict_def fold_rename_entry roles_of_def last_map split: list.splits)

lemma roles_of_mem: "r \<in> set (roles_of m c) \<longleftrightarrow> (r, Some c) \<in> set m"
  by (force simp: roles_of_def)

lemma assigned_mem: "k \<in> set (assigned m) \<longleftrightarrow> (\<exists>c. (k, Some c) \<in> set m)"
  by (force simp: assigned_def)

lemma rename_dict_Some:
  assumes "rename_dict m x = Some (canonical_name k)"
  shows "(k, Some x) \<in> set m" and "last (roles_of m x) = k"
proof -
  from assms have ne: "roles_of m x \<noteq> []"
    and "canonical_name (last (roles_of m x)) = canonical_name k"
    by (auto simp: rename_dict_roles split: if_splits)
  then show l: "last (roles_of m x) = k" by (simp add: canonical_inj)
  from ne have "last (roles_of m x) \<in> set (roles_of m x)" by simp
  with l show "(k, Some x) \<in> set m" by (simp add: roles_of_mem)
qed

lemma distinct_roles_of: "distinct (map fst m) \<Longrightarrow> distinct (roles_of m c)"
  unfolding roles_of_def by (rule distinct_map_filter)

lemma renamed_map:
  "renamed df m = map (\<lambda>c. case rename_dict m c of None \<Rightarrow> c | Some k \<Rightarrow> k) (columns df)"
  by (simp add: renamed_def rename_def)

lemma renamed_nth:
  "j < length (columns df) \<Longrightarrow>
     renamed df m ! j = (case rename_dict m (columns df ! j) of None \<Rightarrow> columns df ! j | Some k \<Rightarrow> k)"
  by (simp add: renamed_map)

text \<open>
  A name \<open>K\<close> that is the new name of no column: the columns that carry it after the
  renaming are the raw columns of this name, when they are not renamed themselves.
\<close>

lemma plain_name:
  assumes "\<And>x. rename_dict m x \<noteq> Some K"
  shows "((case rename_dict m c of None \<Rightarrow> c | Some k \<Rightarrow> k) = K) = (c = K \<and> rename_dict m K = None)"
  using assms [of c] by (cases "rename_dict m c") auto

lemma filter_zip_map:
  assumes "length r = length cs" and "\<And>c. (f c = K) = (c = K \<and> P)"
  shows "map snd (filter (\<lambda>cx. fst cx = K) (zip (map f cs) r))
           = (if P then map snd (filter (\<lambda>cx. fst cx = K) (zip cs r)) else [])"
  using assms(1) by (induction r cs rule: list_induct2) (auto simp: assms(2))

lemma cells_renamed_plain:
  assumes "length r = length (columns df)" and "\<And>x. rename_dict m x \<noteq> Some K"
  shows "cells (renamed df m) r K = (if rename_dict m K = None then cells (columns df) r K else [])"
proof -
  let ?f = "\<lambda>c. case rename_dict m c of None \<Rightarrow> c | Some k \<Rightarrow> k"
  have l: "length r = length (map ?f (columns df))" using assms(1) by simp
  have "map snd (filter (\<lambda>cx. fst cx = K) (zip (map ?f (columns df)) r))
          = (if rename_dict m K = None
             then map snd (filter (\<lambda>cx. fst cx = K) (zip (columns df) r)) else [])"
    using assms(1) plain_name [OF assms(2)] by (rule filter_zip_map)
  then show ?thesis
    unfolding renamed_map cells_zip [OF l] cells_zip [OF assms(1)] .
qed

lemma renamed_plain_mem:
  assumes "\<And>x. rename_dict m x \<noteq> Some K"
  shows "K \<in> set (renamed df m) \<longleftrightarrow> K \<in> set (columns df) \<and> rename_dict m K = None"
proof -
  have "K \<in> set (renamed df m) \<longleftrightarrow>
          (\<exists>c \<in> set (columns df). (case rename_dict m c of None \<Rightarrow> c | Some k \<Rightarrow> k) = K)"
    by (auto simp: renamed_map)
  then show ?thesis unfolding plain_name [OF assms] by auto
qed

lemma field_cells: "field df i k = cells (columns df) (rows df ! i) k"
  by (simp add: field_def cells_def)

lemma cells_nonempty: "k \<in> set cols \<Longrightarrow> cells cols r k \<noteq> []"
proof -
  assume "k \<in> set cols"
  then have "count_list cols k \<noteq> 0" by (simp add: count_list_0_iff)
  then have "length (positions k cols) \<noteq> 0" by (simp add: length_positions)
  then show ?thesis by (auto simp: cells_def)
qed

text \<open>
  The result of \<open>normalize_data\<close> on a table in which at most one column is labelled
  \<open>STATUS\<close> after the renaming.
\<close>

lemma normalize_data_shape:
  assumes "wf_frame df" and "count_list (renamed df m) ''STATUS'' \<le> 1"
  shows "\<exists>out. normalize_data fmt lower df m = Inr out
     \<and> length (rows out) = length (rows df)
     \<and> wf_frame out
     \<and> set required_keys \<subseteq> set (columns out) \<and> ''SCORE'' \<in> set (columns out)
     \<and> take (length (columns df)) (columns out) = renamed df m
     \<and> (\<forall>i < length (rows df). \<forall>j < length (columns df).
           columns out ! j \<noteq> ''SCORE'' \<longrightarrow> rows out ! i ! j = rows df ! i ! j)
     \<and> (\<forall>k \<in> set required_keys. \<forall>i < length (rows df).
           field out i k = (if k \<in> set (renamed df m) then cells (renamed df m) (rows df ! i) k
                            else [VStr ''Unknown'']))
     \<and> (\<forall>i < length (rows df). \<exists>s. field out i ''STATUS'' = [s]
           \<and> field out i ''SCORE'' \<noteq> []
           \<and> set (field out i ''SCORE'') = {VFlt (get_score fmt lower s)})"
proof -
  obtain p where p: "positions ''STATUS'' (columns (normalized df m)) = [p]"
    and n: "normalize_data fmt lower df m =
           Inr \<lparr>columns = out_columns df m, rows = map (out_row fmt lower df m p) (rows df)\<rparr>"
    using assms(2) by (rule normalize_data_out)
  let ?out = "\<lparr>columns = out_columns df m, rows = map (out_row fmt lower df m p) (rows df)\<rparr>"
  have len: "\<And>i. i < length (rows df) \<Longrightarrow> length (rows df ! i) = length (columns df)"
    using assms(1) by (rule wf_nth)
  have a: "length (rows ?out) = length (rows df)" by simp
  have b: "wf_frame ?out"
    using len by (simp add: wf_frame_def list_all_length length_out_row)
  have c: "set required_keys \<subseteq> set (columns ?out) \<and> ''SCORE'' \<in> set (columns ?out)"
    using required_out_columns [of df m] by simp
  have d: "take (length (columns df)) (columns ?out) = renamed df m"
    by (simp add: take_out_columns)
  have e: "\<forall>i < length (rows df). \<forall>j < length (columns df).
           columns ?out ! j \<noteq> ''SCORE'' \<longrightarrow> rows ?out ! i ! j = rows df ! i ! j"
    using len by (simp add: nth_out_row)
  have fld: "field ?out i k = (if k \<in> set (renamed df m) then cells (renamed df m) (rows df ! i) k
                            else [VStr ''Unknown''])"
    if "k \<in> set required_keys" "i < length (rows df)" for i k
  proof -
    have "k \<noteq> ''SCORE''" using that(1) by (auto simp: required_keys_def)
    then have "field ?out i k
        = cells (renamed df m) (rows df ! i) k
            @ replicate (count_list (missing_keys df m) k) (VStr ''Unknown'')"
      using that(2) len by (simp add: field_cells cells_out_row_other)
    then show ?thesis using that(1) by (simp add: cells_absent count_missing)
  qed
  have f: "\<forall>k \<in> set required_keys. \<forall>i < length (rows df).
           field ?out i k = (if k \<in> set (renamed df m) then cells (renamed df m) (rows df ! i) k
                            else [VStr ''Unknown''])"
    using fld by blast
  have h: "\<forall>i < length (rows df). \<exists>s. field ?out i ''STATUS'' = [s]
           \<and> field ?out i ''SCORE'' \<noteq> []
           \<and> set (field ?out i ''SCORE'') = {VFlt (get_score fmt lower s)}"
  proof (intro allI impI)
    fix i assume i: "i < length (rows df)"
    let ?r = "rows df ! i"
    have l: "length ?r = length (columns df)" using i by (rule len)
    have "cells (out_columns df m) (out_row fmt lower df m p ?r) ''STATUS''
            = cells (columns (normalized df m)) (pad df m ?r) ''STATUS''"
      using cells_out_row_other [OF l, of "''STATUS''" m fmt lower p] cells_pad [OF l, of m "''STATUS''"]
      by simp
    then have s: "field ?out i ''STATUS'' = [pad df m ?r ! p]"
      using i by (simp add: field_cells cells_def p)
    obtain n where n: "0 < n"
      "cells (out_columns df m) (out_row fmt lower df m p ?r) ''SCORE''
         = replicate n (score_row fmt lower p (pad df m ?r))"
      using cells_out_row_score [OF l, of m fmt lower p] by blast
    then have "field ?out i ''SCORE'' = replicate n (VFlt (get_score fmt lower (pad df m ?r ! p)))"
      using i by (simp add: field_cells score_row_def)
    with n(1) s show "\<exists>s. field ?out i ''STATUS'' = [s]
           \<and> field ?out i ''SCORE'' \<noteq> []
           \<and> set (field ?out i ''SCORE'') = {VFlt (get_score fmt lower s)}"
      by auto
  qed
  show ?thesis
    using n a b c d e f h by blast
qed

text \<open>
  The field of a name that is the new name of no column: the cells of the raw columns of
  this name when no role has them, and \<open>Unknown\<close> otherwise.
\<close>

lemma field_plain:
  assumes "K \<in> set required_keys" and "\<And>x. rename_dict m x \<noteq> Some K"
    and "i < length (rows df)" and "length (rows df ! i) = length (columns df)"
    and "field out i K = (if K \<in> set (renamed df m) then cells (renamed df m) (rows df ! i) K
                            else [VStr ''Unknown''])"
  shows "field out i K =
     (if K \<in> set (columns df) \<and> roles_of m K = [] then field df i K else [VStr ''Unknown''])"
proof -
  have r: "rename_dict m K = None \<longleftrightarrow> roles_of m K = []"
    by (simp add: rename_dict_roles)
  have "field out i K = (if K \<in> set (columns df) \<and> roles_of m K = []
                         then cells (columns df) (rows df ! i) K else [VStr ''Unknown''])"
    unfolding assms(5) renamed_plain_mem [OF assms(2)] cells_renamed_plain [OF assms(4) assms(2)] r
    by simp
  then show ?thesis by (simp add: field_cells [of df])
qed

lemma unassigned_plain:
  assumes "k \<notin> set (assigned m)"
  shows "rename_dict m x \<noteq> Some (canonical_name k)"
proof
  assume "rename_dict m x = Some (canonical_name k)"
  then have "(k, Some x) \<in> set m" by (rule rename_dict_Some)
  then show False using assms by (auto simp: assigned_mem)
qed

lemma loser_plain:
  assumes "distinct (map fst m)" and "r \<in> set (roles_of m c)" and "r \<noteq> last (roles_of m c)"
  shows "rename_dict m x \<noteq> Some (canonical_name r)"
proof
  assume a: "rename_dict m x = Some (canonical_name r)"
  then have x: "(r, Some x) \<in> set m" by (rule rename_dict_Some)
  have c: "(r, Some c) \<in> set m" using assms(2) by (simp add: roles_of_mem)
  have "Some x = Some c" using assms(1) x c by (rule eq_key_imp_eq_value)
  then have "last (roles_of m c) = r" using rename_dict_Some(2) [OF a] by simp
  then show False using assms(3) by simp
qed

lemma normalize_data_duplicate_status:
  "1 < count_list (renamed df m) ''STATUS'' \<Longrightarrow> normalize_data fmt lower df m = Inl ValueError"
  by (rule normalize_data_Inl)

text \<open>The keys of the mapping of the heuristic resolver, in their order.\<close>

lemma heuristic_keys: "map fst (auto_detect_schema lower cols) = role_order"
  by (simp add: auto_detect_schema_def role_order_def)

lemma distinct_role_order: "distinct role_order"
  by (simp add: role_order_def)

lemma heuristic_roles_of:
  "roles_of (auto_detect_schema lower cols) c
     = filter (\<lambda>r. column_of (auto_detect_schema lower cols) r = Some c) role_order"
  by (simp add: roles_of_def auto_detect_schema_def role_order_def column_of_def)

text \<open>
  A raw column named \<open>STATUS\<close> that the mapping gives to the week role, the status role
  being unset: the column becomes \<open>WEEK\<close>, and \<open>STATUS\<close> is filled with \<open>Unknown\<close>.
\<close>

lemma status_renamed_example:
  "normalize_data fmt1 lower_ascii status_named_raw
     [(RCampus, None), (RInstructor, None), (RSubject, None), (RSection, None), (RStatus, None),
      (RWeek, Some ''STATUS'')]
   = Inr \<lparr> columns = [''WEEK'', ''CAMPUS'', ''INSTRUCTOR'', ''SUBJECT'', ''SECTION'', ''STATUS'', ''SCORE''],
           rows = [[VStr ''done'', VStr ''Unknown'', VStr ''Unknown'', VStr ''Unknown'',
                    VStr ''Unknown'', VStr ''Unknown'', VFlt 0]] \<rparr>"
  by code_simp

text \<open>
  A mapping whose keys are in another order than the resolver's: status comes before
  subject, both have the column Course Status, and the column becomes \<open>SUBJECT\<close>.
\<close>

lemma key_order_example:
  "normalize_data fmt1 lower_ascii shared_raw
     [(RStatus, Some ''Course Status''), (RSubject, Some ''Course Status''),
      (RCampus, Some ''Center''), (RInstructor, None), (RSection, None), (RWeek, None)]
   = Inr \<lparr> columns = [''SUBJECT'', ''CAMPUS'', ''INSTRUCTOR'', ''SECTION'', ''STATUS'', ''WEEK'', ''SCORE''],
           rows = [[VStr ''done'', VStr ''North'', VStr ''Unknown'', VStr ''Unknown'',
                    VStr ''Unknown'', VStr ''Unknown'', VFlt 0],
                   [VStr ''wip'', VStr ''South'', VStr ''Unknown'', VStr ''Unknown'',
                    VStr ''Unknown'', VStr ''Unknown'', VFlt 0]] \<rparr>"
  by code_simp

text \<open>
  Claim C2, as amended. For every raw table and every role mapping such that at most one
  column carries the label \<open>STATUS\<close> after the renaming, \<open>normalize_data\<close> returns a
  table with as many rows as the input, in the same order (the cells of the raw columns
  stay where they were, except in a column labelled \<open>SCORE\<close>, and the raw columns carry
  their renamed labels), in which every row has the six canonical fields and \<open>SCORE\<close>.
  A canonical field holds \<open>Unknown\<close> in every row when no column carries its name after
  the renaming, and the cells of the columns that carry it otherwise. The field of a role
  that has no column holds \<open>Unknown\<close> in every row, unless a raw column that no role has
  is already named as the field: the field then holds the cells of that column.
  \<open>SCORE\<close> holds the score of the row's \<open>STATUS\<close> cell, whatever its text.
\<close>

theorem normalize_data_canonical:
  assumes "wf_frame df" and "count_list (renamed df m) ''STATUS'' \<le> 1"
  shows "\<exists>out. normalize_data fmt lower df m = Inr out
     \<and> length (rows out) = length (rows df)
     \<and> wf_frame out
     \<and> set required_keys \<subseteq> set (columns out) \<and> ''SCORE'' \<in> set (columns out)
     \<and> take (length (columns df)) (columns out) = renamed df m
     \<and> (\<forall>i < length (rows df). \<forall>j < length (columns df).
           columns out ! j \<noteq> ''SCORE'' \<longrightarrow> rows out ! i ! j = rows df ! i ! j)
     \<and> (\<forall>k \<in> set required_keys. \<forall>i < length (rows df).
           field out i k \<noteq> []
           \<and> field out i k = (if k \<in> set (renamed df m) then cells (renamed df m) (rows df ! i) k
                              else [VStr ''Unknown'']))
     \<and> (\<forall>k. k \<notin> set (assigned m) \<longrightarrow> (\<forall>i < length (rows df).
           field out i (canonical_name k) =
             (if canonical_name k \<in> set (columns df) \<and> roles_of m (canonical_name k) = []
              then field df i (canonical_name k) else [VStr ''Unknown''])))
     \<and> (\<forall>i < length (rows df). \<exists>s. field out i ''STATUS'' = [s]
           \<and> field out i ''SCORE'' \<noteq> []
           \<and> set (field out i ''SCORE'') = {VFlt (get_score fmt lower s)})"
proof -
  obtain out where n: "normalize_data fmt lower df m = Inr out"
    and a: "length (rows out) = length (rows df)" "wf_frame out"
      "set required_keys \<subseteq> set (columns out) \<and> ''SCORE'' \<in> set (columns out)"
      "take (length (columns df)) (columns out) = renamed df m"
    and e: "\<forall>i < length (rows df). \<forall>j < length (columns df).
           columns out ! j \<noteq> ''SCORE'' \<longrightarrow> rows out ! i ! j = rows df ! i ! j"
    and f: "\<forall>k \<in> set required_keys. \<forall>i < length (rows df).
           field out i k = (if k \<in> set (renamed df m) then cells (renamed df m) (rows df ! i) k
                            else [VStr ''Unknown''])"
    and h: "\<forall>i < length (rows df). \<exists>s. field out i ''STATUS'' = [s]
           \<and> field out i ''SCORE'' \<noteq> []
           \<and> set (field out i ''SCORE'') = {VFlt (get_score fmt lower s)}"
    using normalize_data_shape [OF assms, of fmt lower] by blast
  have f': "\<forall>k \<in> set required_keys. \<forall>i < length (rows df).
           field out i k \<noteq> []
           \<and> field out i k = (if k \<in> set (renamed df m) then cells (renamed df m) (rows df ! i) k
                              else [VStr ''Unknown''])"
    using f by (simp add: cells_nonempty)
  have g: "\<forall>k. k \<notin> set (assigned m) \<longrightarrow> (\<forall>i < length (rows df).
           field out i (canonical_name k) =
             (if canonical_name k \<in> set (columns df) \<and> roles_of m (canonical_name k) = []
              then field df i (canonical_name k) else [VStr ''Unknown'']))"
  proof (intro allI impI)
    fix k i assume k: "k \<notin> set (assigned m)" and i: "i < length (rows df)"
    have "length (rows df ! i) = length (columns df)" using assms(1) i by (rule wf_nth)
    moreover have "field out i (canonical_name k) =
        (if canonical_name k \<in> set (renamed df m)
         then cells (renamed df m) (rows df ! i) (canonical_name k) else [VStr ''Unknown''])"
      using f i canonical_required [of k] by blast
    ultimately show "field out i (canonical_name k) =
             (if canonical_name k \<in> set (columns df) \<and> roles_of m (canonical_name k) = []
              then field df i (canonical_name k) else [VStr ''Unknown''])"
      using canonical_required unassigned_plain [OF k] i by (rule field_plain [rotated 3])
  qed
  show ?thesis using n a e f' g h by blast
qed

theorem normalize_data_canonical_witness:
  "wf_frame example_raw
   \<and> count_list (renamed example_raw (auto_detect_schema lower_ascii example_columns)) ''STATUS'' \<le> 1
   \<and> (\<exists>out. normalize_data fmt1 lower_ascii example_raw (auto_detect_schema lower_ascii example_columns)
               = Inr out
        \<and> length (rows out) = 3 \<and> wf_frame out
        \<and> take 6 (columns out) = [''CAMPUS'', ''INSTRUCTOR'', ''SUBJECT'', ''SECTION'', ''STATUS'', ''WEEK''])"
proof -
  let ?m = "auto_detect_schema lower_ascii example_columns"
  have a: "wf_frame example_raw" by code_simp
  have r: "renamed example_raw ?m = [''CAMPUS'', ''INSTRUCTOR'', ''SUBJECT'', ''SECTION'', ''STATUS'', ''WEEK'']"
    by code_simp
  have b: "count_list (renamed example_raw ?m) ''STATUS'' \<le> 1"
    unfolding r by simp
  have l: "length (rows example_raw) = 3" "length (columns example_raw) = 6"
    by (simp_all add: example_raw_def example_columns_def)
  show ?thesis
    using normalize_data_canonical [OF a b, of fmt1 lower_ascii] a b unfolding l r by blast
qed

text \<open>
  The claim as stated fails where a raw column is already named as a canonical field: the
  status role is unset, and the field \<open>STATUS\<close> holds the raw cell, not \<open>Unknown\<close>.
\<close>

theorem normalize_unknown_counterexample:
  "column_of unset_schema RStatus = None
   \<and> normalize_data fmt1 lower_ascii status_named_raw unset_schema = Inr status_named_out
   \<and> field status_named_out 0 ''STATUS'' \<noteq> [VStr ''Unknown'']"
proof -
  have a: "normalize_data fmt1 lower_ascii status_named_raw unset_schema = Inr status_named_out"
    by code_simp
  have b: "field status_named_out 0 ''STATUS'' = [VStr ''done'']"
    by code_simp
  have c: "column_of unset_schema RStatus = None" by code_simp
  show ?thesis using a b c by simp
qed

text \<open>
  Claim C10, as amended. The mapping is a dict, each key once. When a column \<open>c\<close> is the
  value of two or more roles, \<open>normalize_data\<close> gives the column the canonical name of
  the last of these roles in the order of the keys of the mapping, and of no other. Each
  other role that has the column holds \<open>Unknown\<close> in every row, unless a raw column that
  no role has is already named as that role's field: the field then holds the cells of
  that column. In the mapping of the heuristic resolver the keys are in the order campus,
  instructor, subject, section, status, week. As in C2 the table is one in which at most
  one column is labelled \<open>STATUS\<close> after the renaming.
\<close>

theorem shared_column_last_role_wins:
  assumes "wf_frame df" "count_list (renamed df m) ''STATUS'' \<le> 1"
    and "distinct (map fst m)" and "2 \<le> length (roles_of m c)"
  shows "(\<exists>out. normalize_data fmt lower df m = Inr out
     \<and> (\<forall>j < length (columns df). columns df ! j = c \<longrightarrow>
           columns out ! j = canonical_name (last (roles_of m c)))
     \<and> (\<forall>r \<in> set (butlast (roles_of m c)).
           canonical_name r \<noteq> canonical_name (last (roles_of m c))
           \<and> (\<forall>i < length (rows df). field out i (canonical_name r) =
                (if canonical_name r \<in> set (columns df) \<and> roles_of m (canonical_name r) = []
                 then field df i (canonical_name r) else [VStr ''Unknown'']))))
     \<and> set (roles_of m c) = {r. (r, Some c) \<in> set m}
     \<and> map fst (auto_detect_schema lower' cols) = role_order
     \<and> roles_of (auto_detect_schema lower' cols) c
         = filter (\<lambda>r. column_of (auto_detect_schema lower' cols) r = Some c) role_order"
proof -
  obtain out where n: "normalize_data fmt lower df m = Inr out"
    and t: "take (length (columns df)) (columns out) = renamed df m"
    and f: "\<forall>k \<in> set required_keys. \<forall>i < length (rows df).
           field out i k = (if k \<in> set (renamed df m) then cells (renamed df m) (rows df ! i) k
                            else [VStr ''Unknown''])"
    using normalize_data_shape [OF assms(1,2), of fmt lower] by blast
  have ne: "roles_of m c \<noteq> []" using assms(4) by auto
  have a: "\<forall>j < length (columns df). columns df ! j = c \<longrightarrow>
           columns out ! j = canonical_name (last (roles_of m c))"
  proof (intro allI impI)
    fix j assume j: "j < length (columns df)" and c: "columns df ! j = c"
    have "columns out ! j = take (length (columns df)) (columns out) ! j" using j by simp
    also have "\<dots> = renamed df m ! j" by (simp add: t)
    also have "\<dots> = canonical_name (last (roles_of m c))"
      using j c ne by (simp add: renamed_nth rename_dict_roles)
    finally show "columns out ! j = canonical_name (last (roles_of m c))" .
  qed
  have mem: "r \<in> set (roles_of m c) \<and> r \<noteq> last (roles_of m c)"
    if "r \<in> set (butlast (roles_of m c))" for r
  proof -
    have "distinct (butlast (roles_of m c) @ [last (roles_of m c)])"
      using ne distinct_roles_of [OF assms(3), of c] by simp
    then have "last (roles_of m c) \<notin> set (butlast (roles_of m c))" by simp
    with that show ?thesis using in_set_butlastD by fastforce
  qed
  have b: "\<forall>r \<in> set (butlast (roles_of m c)).
           canonical_name r \<noteq> canonical_name (last (roles_of m c))
           \<and> (\<forall>i < length (rows df). field out i (canonical_name r) =
                (if canonical_name r \<in> set (columns df) \<and> roles_of m (canonical_name r) = []
                 then field df i (canonical_name r) else [VStr ''Unknown'']))"
  proof (intro ballI conjI allI impI)
    fix r assume r: "r \<in> set (butlast (roles_of m c))"
    show "canonical_name r \<noteq> canonical_name (last (roles_of m c))"
      using mem [OF r] canonical_inj by blast
    fix i assume i: "i < length (rows df)"
    have p: "\<And>x. rename_dict m x \<noteq> Some (canonical_name r)"
      using loser_plain [OF assms(3)] mem [OF r] by blast
    have "length (rows df ! i) = length (columns df)" using assms(1) i by (rule wf_nth)
    moreover have "field out i (canonical_name r) =
        (if canonical_name r \<in> set (renamed df m)
         then cells (renamed df m) (rows df ! i) (canonical_name r) else [VStr ''Unknown''])"
      using f i canonical_required [of r] by blast
    ultimately show "field out i (canonical_name r) =
                (if canonical_name r \<in> set (columns df) \<and> roles_of m (canonical_name r) = []
                 then field df i (canonical_name r) else [VStr ''Unknown''])"
      using canonical_required p i by (rule field_plain [rotated 3])
  qed
  have s: "set (roles_of m c) = {r. (r, Some c) \<in> set m}"
    by (auto simp: roles_of_mem)
  show ?thesis
    using n a b s heuristic_keys [of lower' cols] heuristic_roles_of [of lower' cols c] by blast
qed

theorem shared_column_witness:
  "wf_frame shared_raw
   \<and> count_list (renamed shared_raw (auto_detect_schema lower_ascii (columns shared_raw))) ''STATUS'' \<le> 1
   \<and> distinct (map fst (auto_detect_schema lower_ascii (columns shared_raw)))
   \<and> 2 \<le> length (roles_of (auto_detect_schema lower_ascii (columns shared_raw)) ''Course Status'')
   \<and> (\<exists>out. normalize_data fmt1 lower_ascii shared_raw
               (auto_detect_schema lower_ascii (columns shared_raw)) = Inr out
        \<and> columns out ! 0 = ''STATUS''
        \<and> field out 0 ''SUBJECT'' = [VStr ''Unknown'']
        \<and> field out 1 ''SUBJECT'' = [VStr ''Unknown''])"
proof -
  let ?m = "auto_detect_schema lower_ascii (columns shared_raw)"
  have a: "wf_frame shared_raw" by code_simp
  have r: "renamed shared_raw ?m = [''STATUS'', ''CAMPUS'']" by code_simp
  have b: "count_list (renamed shared_raw ?m) ''STATUS'' \<le> 1" unfolding r by simp
  have d: "distinct (map fst ?m)" by (simp add: heuristic_keys distinct_role_order)
  have ro: "roles_of ?m ''Course Status'' = [RSubject, RStatus]" by code_simp
  have c: "2 \<le> length (roles_of ?m ''Course Status'')" unfolding ro by simp
  have l: "length (rows shared_raw) = 2" "columns shared_raw ! 0 = ''Course Status''"
    "0 < length (columns shared_raw)" "''SUBJECT'' \<notin> set (columns shared_raw)"
    by (simp_all add: shared_raw_def)
  obtain out where o: "normalize_data fmt1 lower_ascii shared_raw ?m = Inr out"
    and p: "\<forall>j < length (columns shared_raw). columns shared_raw ! j = ''Course Status'' \<longrightarrow>
           columns out ! j = canonical_name (last (roles_of ?m ''Course Status''))"
    and q: "\<forall>r \<in> set (butlast (roles_of ?m ''Course Status'')).
           canonical_name r \<noteq> canonical_name (last (roles_of ?m ''Course Status''))
           \<and> (\<forall>i < length (rows shared_raw). field out i (canonical_name r) =
                (if canonical_name r \<in> set (columns shared_raw) \<and> roles_of ?m (canonical_name r) = []
                 then field shared_raw i (canonical_name r) else [VStr ''Unknown'']))"
    using shared_column_last_role_wins [OF a b d c, of fmt1 lower_ascii] by blast
  have "columns out ! 0 = ''STATUS''" using p l by (simp add: ro canonical_name_simps)
  moreover have "\<forall>i < 2. field out i ''SUBJECT'' = [VStr ''Unknown'']"
    using q unfolding ro l by (simp add: canonical_name_simps l)
  ultimately show ?thesis using a b c d o by auto
qed

text \<open>
  The claim as stated fails where a raw column is already named \<open>SUBJECT\<close>: subject and
  status share the column Course Status, which becomes \<open>STATUS\<close>, and the field
  \<open>SUBJECT\<close> holds the cells of the raw column, not \<open>Unknown\<close>. (It also fails for a
  mapping whose keys are in another order, \<open>key_order_example\<close>.)
\<close>

theorem shared_column_counterexample:
  "column_of (auto_detect_schema lower_ascii (columns shared_named_raw)) RSubject = Some ''Course Status''
   \<and> column_of (auto_detect_schema lower_ascii (columns shared_named_raw)) RStatus = Some ''Course Status''
   \<and> normalize_data fmt1 lower_ascii shared_named_raw
        (auto_detect_schema lower_ascii (columns shared_named_raw))
       = Inr shared_named_out
   \<and> field shared_named_out 0 ''SUBJECT'' \<noteq> [VStr ''Unknown'']"
proof -
  have a: "auto_detect_schema lower_ascii (columns shared_named_raw) =
     [(RCampus, None), (RInstructor, None), (RSubject, Some ''Course Status''),
      (RSection, None), (RStatus, Some ''Course Status''), (RWeek, None)]"
    by code_simp
  have b: "normalize_data fmt1 lower_ascii shared_named_raw
     [(RCampus, None), (RInstructor, None), (RSubject, Some ''Course Status''),
      (RSection, None), (RStatus, Some ''Course Status''), (RWeek, None)]
       = Inr shared_named_out"
    by code_simp
  have c: "field shared_named_out 0 ''SUBJECT'' = [VStr ''Maths'']" by code_simp
  show ?thesis unfolding a using b c by (simp add: column_of_def)
qed

section \<open>Properties of aggregation\<close>

text \<open>The example tables of this section are results of \<open>normalize_data\<close>.\<close>

lemma canon_table_eval:
  "normalize_data fmt1 lower_ascii canon_raw (auto_detect_schema lower_ascii (columns canon_raw)) = Inr canon_table"
  by code_simp

lemma set_unique: "set (unique xs) = set xs"
  by (simp add: unique_def)

lemma distinct_unique: "distinct (unique xs)"
  by (simp add: unique_def)

lemma set_group_keys: "set (group_keys ks) = {k \<in> set ks. k \<noteq> VNaN}"
  by (auto simp: group_keys_def set_unique notna_def)

lemma distinct_group_keys: "distinct (group_keys ks)"
  by (simp add: group_keys_def distinct_unique)

lemma below_groupby:
  "below t (groupby_mean ks vs) = filter (\<lambda>k. mean (group_of k ks vs) < t) (group_keys ks)"
  by (simp add: below_def groupby_mean_def filter_map comp_def)

lemma set_below:
  "set (below t (groupby_mean ks vs)) = {k \<in> set ks. k \<noteq> VNaN \<and> mean (group_of k ks vs) < t}"
  by (auto simp: below_groupby set_group_keys)

lemma distinct_below: "distinct (below t (groupby_mean ks vs))"
  by (simp add: below_groupby distinct_group_keys)

lemma length_at_risk:
  "length (filter (\<lambda>km. snd km < t) (groupby_mean ks vs))
     = card {k \<in> set ks. k \<noteq> VNaN \<and> mean (group_of k ks vs) < t}"
proof -
  have "length (filter (\<lambda>km. snd km < t) (groupby_mean ks vs)) = length (below t (groupby_mean ks vs))"
    by (simp add: below_def)
  also have "\<dots> = card (set (below t (groupby_mean ks vs)))"
    using distinct_below [of t ks vs] by (simp add: distinct_card)
  finally show ?thesis by (simp add: set_below)
qed

lemma canon_series:
  "series canon_table ''CAMPUS''
     = Some [VStr ''North'', VStr ''North'', VStr ''North'', VStr ''South'', VStr ''South'']"
  "series canon_table ''INSTRUCTOR''
     = Some [VStr ''Asha'', VStr ''Asha'', VStr ''Asha'', VStr ''Ravi'', VStr ''Ravi'']"
  "series canon_table ''SUBJECT''
     = Some [VStr ''Algebra'', VStr ''Logic'', VStr ''Sets'', VStr ''Algebra'', VStr ''Logic'']"
  "floats canon_table ''SCORE'' = Some [1, 0, 0, 1 / 2, 1]"
  "\<not> df_empty canon_table"
  by code_simp+

lemma canon_perf_eval: "compute_instructor_performance canon_table = Some canon_perf"
  by code_simp

lemma perf_group_status:
  "Status (perf_group ks subj score k) = label_status (Completion_Pct (perf_group ks subj score k))"
  by (simp add: perf_group_def Let_def)

lemma performance_status:
  "compute_instructor_performance df = Some gs \<Longrightarrow> g \<in> set gs \<Longrightarrow>
     Status g = label_status (Completion_Pct g)"
  by (auto simp: compute_instructor_performance_def Let_def perf_group_status bind_eq_Some_conv
      split: if_splits)

lemma series_present:
  assumes "distinct (columns df)" "k \<in> set (columns df)"
  obtains xs where "series df k = Some xs"
proof -
  have "count_list (columns df) k = 1" using assms by (rule count_list_distinct)
  then obtain p where "positions k (columns df) = [p]" by (rule positions_one)
  then have "series df k = Some (map (\<lambda>r. r ! p) (rows df))"
    by (simp add: series_def getitem_def)
  then show ?thesis by (rule that)
qed

lemma length_risk_rows:
  "length score = length (rows df) \<Longrightarrow>
     length (risk_rows df score) = length (filter (\<lambda>s. s < 1 / 2) score)"
proof -
  assume l: "length score = length (rows df)"
  have "length (filter (\<lambda>rs. snd rs < 1 / 2) (zip rs score)) = length (filter (\<lambda>s. s < 1 / 2) score)"
    if "length score = length rs" for rs :: "cell list list"
    using that by (induction score rs rule: list_induct2) auto
  then show ?thesis using l by (simp add: risk_rows_def)
qed

lemma set_risk_rows: "set (risk_rows df score) \<subseteq> set (rows df)"
  by (auto simp: risk_rows_def dest: set_zip_leftD)

lemma length_series: "series df k = Some xs \<Longrightarrow> length xs = length (rows df)"
  by (auto simp: series_def getitem_def split: list.splits)

lemma length_those: "those xs = Some ys \<Longrightarrow> length ys = length xs"
  by (induction xs arbitrary: ys) (auto split: option.splits)

lemma length_floats: "floats df k = Some xs \<Longrightarrow> length xs = length (rows df)"
  by (auto simp: floats_def split: option.splits dest!: length_those length_series)

lemma shared_digest_eval: "build_ai_summary shared_out ''overall'' = Some shared_digest"
  by code_simp

lemma performance_sorted:
  "compute_instructor_performance df = Some gs \<Longrightarrow>
     sorted (map (\<lambda>g. pct_key (Completion_Pct g)) gs)"
  by (auto simp: compute_instructor_performance_def Let_def bind_eq_Some_conv split: if_splits)

lemma pct_key_finite: "pct_key (Fin a) \<le> pct_key (Fin b) \<longleftrightarrow> a \<le> b"
  by (auto simp: less_eq_prod_def)

lemma set_group_keys2:
  "set (group_keys2 ks) = {k \<in> set ks. fst k \<noteq> VNaN \<and> snd k \<noteq> VNaN}"
  by (auto simp: group_keys2_def set_unique notna_def)

lemma distinct_group_keys2: "distinct (group_keys2 ks)"
  by (simp add: group_keys2_def distinct_unique)

lemma length_group_of:
  "length vs = length ks \<Longrightarrow> length (group_of k ks vs) = count_list ks k"
proof -
  assume "length vs = length ks"
  then show ?thesis unfolding group_of_def
    by (induction vs ks rule: list_induct2) auto
qed

lemma performance_rollup:
  assumes "\<not> df_empty df"
    and "series df ''INSTRUCTOR'' = Some inst" and "series df ''CAMPUS'' = Some campus"
    and "series df ''SUBJECT'' = Some subj" and "floats df ''SCORE'' = Some score"
  shows "\<exists>gs. compute_instructor_performance df = Some gs
     \<and> sorted (map (\<lambda>g. pct_key (Completion_Pct g)) gs)
     \<and> set gs = perf_group (zip inst campus) subj score ` set (group_keys2 (zip inst campus))
     \<and> length gs = length (group_keys2 (zip inst campus))"
proof -
  let ?ks = "zip inst campus"
  let ?gs = "sort_key (\<lambda>g. pct_key (Completion_Pct g)) (map (perf_group ?ks subj score) (group_keys2 ?ks))"
  have "compute_instructor_performance df = Some ?gs"
    using assms by (simp add: compute_instructor_performance_def Let_def)
  then show ?thesis by simp
qed

lemma perf_group_no_gap:
  assumes "length subj = length ks" "length score = length ks"
    and "VNaN \<notin> set (group_of k ks subj)" and "k \<in> set ks"
  shows "Total_Items (perf_group ks subj score k) = length (group_of k ks score)
     \<and> Completion_Pct (perf_group ks subj score k)
         = Fin (round1 (sum_list (group_of k ks score) / of_nat (length (group_of k ks score)) * 100))"
proof -
  have "filter notna (group_of k ks subj) = group_of k ks subj"
    using assms(3) by (auto simp: notna_def filter_id_conv)
  then have c: "count_notna (group_of k ks subj) = length (group_of k ks score)"
    using assms(1,2) by (simp add: count_notna_def length_group_of)
  have "0 < count_list ks k" using assms(4) count_list_0_iff [of ks k] by auto
  then have "length (group_of k ks score) \<noteq> 0"
    using assms(2) by (simp add: length_group_of)
  then show ?thesis using c
    by (simp add: perf_group_def Let_def completion_pct_def)
qed

lemma gap_eval:
  "normalize_data fmt1 lower_ascii gap_raw (auto_detect_schema lower_ascii (columns gap_raw)) = Inr gap_table"
  "compute_instructor_performance gap_table = Some gap_perf"
  by code_simp+

lemma canon_status:
  "series canon_table ''STATUS''
     = Some [VStr ''Done'', VStr ''pending'', VNaN, VStr '' WIP '', VStr ''yes'']"
  "distinct (columns canon_table)"
  by code_simp+

lemma shared_out_eval:
  "normalize_data fmt1 lower_ascii shared_raw (auto_detect_schema lower_ascii (columns shared_raw)) = Inr shared_out"
  by code_simp

text \<open>
  Claim C5, as amended. The label of a finite percentage is the string \<open>On Track\<close>
  followed by a space and the check mark U+2705 when it is at least 80, \<open>Delayed\<close> followed
  by a space and the warning sign U+26A0 U+FE0F when it is at least 50 and below 80, and
  \<open>Critical\<close> followed by a space and the red circle U+1F534 when it is below 50 (the
  strings \<open>on_track\<close>, \<open>delayed\<close>, \<open>critical\<close>, in UTF-8); 80 gives the first, 79.9
  and 50 the second, 49.9 the third; and every group of \<open>compute_instructor_performance\<close>
  carries the label of its \<open>Completion_Pct\<close>.
\<close>

theorem label_status_thresholds:
  "label_status (Fin r) = (if 80 \<le> r then on_track else if 50 \<le> r then delayed else critical)
   \<and> label_status (Fin 80) = on_track
   \<and> label_status (Fin (799 / 10)) = delayed
   \<and> label_status (Fin 50) = delayed
   \<and> label_status (Fin (499 / 10)) = critical
   \<and> (compute_instructor_performance df = Some gs \<longrightarrow>
        (\<forall>g \<in> set gs. Status g = label_status (Completion_Pct g)))"
  using performance_status [of df gs] by (simp add: label_status_def)

theorem label_status_thresholds_witness:
  "compute_instructor_performance canon_table = Some canon_perf
   \<and> Status (canon_perf ! 0) = label_status (Completion_Pct (canon_perf ! 0))
   \<and> Status (canon_perf ! 1) = label_status (Completion_Pct (canon_perf ! 1))
   \<and> label_status (Fin (333 / 10)) = critical \<and> label_status (Fin 75) = delayed"
proof -
  have m: "canon_perf ! 0 \<in> set canon_perf" "canon_perf ! 1 \<in> set canon_perf"
    by (simp_all add: canon_perf_def)
  have a: "\<forall>g \<in> set canon_perf. Status g = label_status (Completion_Pct g)"
    using label_status_thresholds [of 0 canon_table canon_perf] canon_perf_eval by blast
  have b: "label_status (Fin (333 / 10)) = critical" "label_status (Fin 75) = delayed"
    using label_status_thresholds [of "333 / 10" canon_table canon_perf]
      label_status_thresholds [of 75 canon_table canon_perf]
    by simp_all
  show ?thesis using a b m canon_perf_eval by blast
qed

text \<open>
  The claim as stated fails: no label is exactly \<open>On Track\<close>, \<open>Delayed\<close> or
  \<open>Critical\<close>; each carries its symbol.
\<close>

theorem label_status_counterexample:
  "label_status (Fin 80) \<noteq> ''On Track'' \<and> label_status (Fin 50) \<noteq> ''Delayed''
   \<and> label_status (Fin (499 / 10)) \<noteq> ''Critical''"
  by (simp add: label_status_def on_track_def delayed_def critical_def)

text \<open>
  Claim C6. For a table that is not empty, with the columns \<open>CAMPUS\<close>, \<open>INSTRUCTOR\<close>,
  \<open>SUBJECT\<close> and a float column \<open>SCORE\<close>: \<open>compute_risk_factors\<close> lists, each once,
  exactly the campuses whose mean score (the mean of \<open>SCORE\<close> over the rows of the
  campus) is below 3/5 and exactly the instructors whose mean score is below 1/2, and
  \<open>compute_kpis\<close> counts the instructors with the same bound 1/2. A campus of mean 0.59
  is listed and one of mean 0.61 is not; an instructor of mean 0.49 is listed and one of
  mean 0.51 is not. (An empty cell is not a campus or an instructor: \<open>groupby\<close> drops it.)
\<close>

theorem risk_thresholds:
  assumes "\<not> df_empty df"
    and "series df ''CAMPUS'' = Some campus" and "series df ''INSTRUCTOR'' = Some inst"
    and "series df ''SUBJECT'' = Some subj" and "floats df ''SCORE'' = Some score"
  shows "\<exists>rf kp. compute_risk_factors df = Some rf \<and> compute_kpis df = Some kp
     \<and> distinct (campuses rf)
     \<and> set (campuses rf) = {c \<in> set campus. c \<noteq> VNaN \<and> mean (group_of c campus score) < 3 / 5}
     \<and> distinct (instructors rf)
     \<and> set (instructors rf) = {i \<in> set inst. i \<noteq> VNaN \<and> mean (group_of i inst score) < 1 / 2}
     \<and> map_of kp ''at_risk_instructors''
         = Some (JInt (int (card {i \<in> set inst. i \<noteq> VNaN \<and> mean (group_of i inst score) < 1 / 2})))
     \<and> (\<forall>c \<in> set campus. c \<noteq> VNaN \<longrightarrow>
          (mean (group_of c campus score) = 59 / 100 \<longrightarrow> c \<in> set (campuses rf))
          \<and> (mean (group_of c campus score) = 61 / 100 \<longrightarrow> c \<notin> set (campuses rf)))
     \<and> (\<forall>i \<in> set inst. i \<noteq> VNaN \<longrightarrow>
          (mean (group_of i inst score) = 49 / 100 \<longrightarrow> i \<in> set (instructors rf))
          \<and> (mean (group_of i inst score) = 51 / 100 \<longrightarrow> i \<notin> set (instructors rf)))"
proof -
  let ?rf = "\<lparr> campuses = below (3 / 5) (groupby_mean campus score),
               instructors = below (1 / 2) (groupby_mean inst score) \<rparr>"
  have rf: "compute_risk_factors df = Some ?rf"
    using assms by (simp add: compute_risk_factors_def Let_def)
  obtain kp where kp: "compute_kpis df = Some kp"
    and ar: "map_of kp ''at_risk_instructors''
       = Some (JInt (int (length (filter (\<lambda>km. snd km < 1 / 2) (groupby_mean inst score)))))"
    using assms by (simp add: compute_kpis_def Let_def)
  have a: "set (campuses ?rf) = {c \<in> set campus. c \<noteq> VNaN \<and> mean (group_of c campus score) < 3 / 5}"
    by (simp add: set_below)
  have b: "set (instructors ?rf) = {i \<in> set inst. i \<noteq> VNaN \<and> mean (group_of i inst score) < 1 / 2}"
    by (simp add: set_below)
  have c: "distinct (campuses ?rf)" "distinct (instructors ?rf)"
    by (simp_all add: distinct_below)
  have d: "\<forall>c \<in> set campus. c \<noteq> VNaN \<longrightarrow>
          (mean (group_of c campus score) = 59 / 100 \<longrightarrow> c \<in> set (campuses ?rf))
          \<and> (mean (group_of c campus score) = 61 / 100 \<longrightarrow> c \<notin> set (campuses ?rf))"
    unfolding a by simp
  have e: "\<forall>i \<in> set inst. i \<noteq> VNaN \<longrightarrow>
          (mean (group_of i inst score) = 49 / 100 \<longrightarrow> i \<in> set (instructors ?rf))
          \<and> (mean (group_of i inst score) = 51 / 100 \<longrightarrow> i \<notin> set (instructors ?rf))"
    unfolding b by simp
  show ?thesis
    using rf kp ar a b c d e unfolding length_at_risk by blast
qed

theorem risk_thresholds_witness:
  "\<not> df_empty canon_table
   \<and> (\<exists>rf kp. compute_risk_factors canon_table = Some rf \<and> compute_kpis canon_table = Some kp
        \<and> set (campuses rf) = {VStr ''North''})"
proof -
  let ?campus = "[VStr ''North'', VStr ''North'', VStr ''North'', VStr ''South'', VStr ''South'']"
  let ?score = "[1, 0, 0, 1 / 2, 1] :: rat list"
  have n: "mean (group_of (VStr ''North'') ?campus ?score) = 1 / 3" by code_simp
  have s: "mean (group_of (VStr ''South'') ?campus ?score) = 3 / 4" by code_simp
  have "{c \<in> set ?campus. c \<noteq> VNaN \<and> mean (group_of c ?campus ?score) < 3 / 5} = {VStr ''North''}"
    using n s by auto
  then show ?thesis
    using risk_thresholds [OF canon_series(5,1,2,3,4)] canon_series(5) by auto
qed

text \<open>
  Claim C7. The code fails it: \<open>Total_Items\<close> is \<open>('SUBJECT', 'count')\<close>, the number
  of rows of the group whose \<open>SUBJECT\<close> cell is not empty, not the number of rows. In
  the table below one instructor at one campus has two rows, both done, one of them with
  an empty subject cell: the rollup gives one item, the sum 2 and 200 percent, where the
  sum over the row count is 100 percent. The ordering part of the claim holds
  (\<open>performance_sorted\<close>), and so does the percentage for every group without an empty
  subject cell (\<open>perf_group_no_gap\<close>).
\<close>

theorem instructor_performance_counts_subjects:
  "normalize_data fmt1 lower_ascii gap_raw (auto_detect_schema lower_ascii (columns gap_raw)) = Inr gap_table
   \<and> length (rows gap_table) = 2
   \<and> series gap_table ''SCORE'' = Some [VFlt 1, VFlt 1]
   \<and> compute_instructor_performance gap_table
       = Some [\<lparr> INSTRUCTOR = VStr ''Asha'', CAMPUS = VStr ''North'', Total_Items = 1,
                 Completed_Score_Sum = 2, Completion_Pct = Fin 200, Status = on_track \<rparr>]
   \<and> round1 ((1 + 1) / 2 * 100) = 100"
proof -
  have a: "series gap_table ''SCORE'' = Some [VFlt 1, VFlt 1]" by code_simp
  have b: "round1 ((1 + 1) / 2 * 100) = 100" by code_simp
  have c: "length (rows gap_table) = 2" by (simp add: gap_table_def)
  show ?thesis using gap_eval a b c by (simp add: gap_perf_def)
qed

text \<open>
  Claim C8. On an empty table (no rows, or no columns) each of the four aggregators
  returns a defined result and none fails: \<open>compute_kpis\<close> the empty mapping,
  \<open>compute_instructor_performance\<close> the rollup without rows, \<open>compute_risk_factors\<close>
  two empty lists, and \<open>build_ai_summary\<close> the digest that holds only the context label
  and the message that no data is available (no statistic is computed, nothing is
  divided).
\<close>

theorem aggregators_on_empty_table:
  "df_empty df \<Longrightarrow>
     compute_kpis df = Some []
     \<and> compute_instructor_performance df = Some []
     \<and> compute_risk_factors df = Some \<lparr> campuses = [], instructors = [] \<rparr>
     \<and> build_ai_summary df context =
         Some [(''context'', JStr context), (''error'', JStr ''No data available in current filter'')]"
  by (simp add: compute_kpis_def compute_instructor_performance_def compute_risk_factors_def
      build_ai_summary_def)

theorem aggregators_on_empty_table_witness:
  "df_empty empty_table
   \<and> compute_kpis empty_table = Some []
   \<and> compute_instructor_performance empty_table = Some []
   \<and> compute_risk_factors empty_table = Some \<lparr> campuses = [], instructors = [] \<rparr>
   \<and> build_ai_summary empty_table ''campus'' =
       Some [(''context'', JStr ''campus''), (''error'', JStr ''No data available in current filter'')]"
proof -
  have e: "df_empty empty_table" by (simp add: df_empty_def empty_table_def)
  show ?thesis using aggregators_on_empty_table [OF e, of "''campus''"] e by simp
qed

text \<open>
  The digest of a table that is not empty, whose labels are distinct and which has the
  columns \<open>STATUS\<close>, \<open>INSTRUCTOR\<close>, \<open>CAMPUS\<close> and a float column \<open>SCORE\<close>:
  \<open>risk_count\<close> is the number of rows whose score is below 1/2; the preview holds
  the first five of these rows at most, in row order, each restricted to the labels among
  INSTRUCTOR, CAMPUS, SUBJECT, SECTION, STATUS that the table has; without such rows
  \<open>risk_count\<close> is 0 and the preview is empty. The digest has the entry
  \<open>active_sections\<close> exactly when the table has a column \<open>SECTION\<close>.
\<close>

lemma ai_summary_preview:
  assumes "\<not> df_empty df" and "distinct (columns df)"
    and "floats df ''SCORE'' = Some score" and "series df ''STATUS'' = Some status"
    and "series df ''INSTRUCTOR'' = Some inst" and "series df ''CAMPUS'' = Some campus"
  shows "\<exists>d. build_ai_summary df context = Some d
     \<and> map_of d ''risk_count'' = Some (JInt (int (length (risk_rows df score))))
     \<and> length (risk_rows df score) = length (filter (\<lambda>s. s < 1 / 2) score)
     \<and> set (risk_rows df score) \<subseteq> set (rows df)
     \<and> map_of d ''at_risk_preview''
         = Some (JRecords (map (record_of df (kept_cols df)) (take 5 (risk_rows df score))))
     \<and> length (map (record_of df (kept_cols df)) (take 5 (risk_rows df score))) \<le> 5
     \<and> set (kept_cols df) = set preferred_cols \<inter> set (columns df)
     \<and> (filter (\<lambda>s. s < 1 / 2) score = [] \<longrightarrow>
           map_of d ''risk_count'' = Some (JInt 0) \<and> map_of d ''at_risk_preview'' = Some (JRecords []))
     \<and> (''active_sections'' \<in> fst ` set d \<longleftrightarrow> ''SECTION'' \<in> set (columns df))
     \<and> (\<forall>sec. series df ''SECTION'' = Some sec \<longrightarrow>
           map_of d ''active_sections'' = Some (JInt (int (nunique sec))))"
proof -
  let ?risk = "risk_rows df score"
  let ?items = "map (record_of df (kept_cols df)) (take 5 ?risk)"
  let ?summary = "[(''context'', JStr context),
               (''total_records'', JInt (int (length (rows df)))),
               (''average_completion_pct'', JNum (round1 (mean score * 100))),
               (''status_distribution'', JDist (value_counts status)),
               (''at_risk_preview'', JRecords ?items),
               (''risk_count'', JInt (int (length ?risk))),
               (''unique_instructors'', JInt (int (nunique inst))),
               (''unique_campuses'', JInt (int (nunique campus)))]"
  have it: "(if ?risk \<noteq> [] then map (record_of df (kept_cols df)) (take 5 ?risk) else []) = ?items"
    by simp
  have l: "length ?risk = length (filter (\<lambda>s. s < 1 / 2) score)"
    using length_floats [OF assms(3)] by (rule length_risk_rows)
  have k: "set (kept_cols df) = set preferred_cols \<inter> set (columns df)"
    by (auto simp: kept_cols_def)
  have z: "filter (\<lambda>s. s < 1 / 2) score = [] \<longrightarrow> ?risk = []"
    using l by auto
  show ?thesis
  proof (cases "''SECTION'' \<in> set (columns df)")
    case True
    then obtain sec where sec: "series df ''SECTION'' = Some sec"
      using assms(2) series_present by blast
    have "build_ai_summary df context
            = Some (?summary @ [(''active_sections'', JInt (int (nunique sec)))])"
      using assms True sec unfolding build_ai_summary_def Let_def kept_cols_def [symmetric] it
      by simp
    then show ?thesis using l k z True sec set_risk_rows [of df score] by auto
  next
    case False
    then have "length (positions ''SECTION'' (columns df)) = 0"
      by (simp add: length_positions)
    then have "positions ''SECTION'' (columns df) = []" by simp
    then have ns: "series df ''SECTION'' = None"
      by (simp add: series_def getitem_def)
    have "build_ai_summary df context = Some ?summary"
      using assms False unfolding build_ai_summary_def Let_def kept_cols_def [symmetric] it
      by simp
    then show ?thesis using l k z False ns set_risk_rows [of df score] by auto
  qed
qed

text \<open>
  Claim C9. The code fails it in its last part. The entry \<open>active_sections\<close> is added
  under the test \<open>'SECTION' in df.columns\<close>, which is meant to leave it out when there
  is no section; but \<open>normalize_data\<close> adds the column \<open>SECTION\<close> to every table, so
  the test never fails. For the table \<open>shared_raw\<close> (columns Course Status, Center) the
  resolver leaves the section role unset, the normalized table holds \<open>Unknown\<close> in
  \<open>SECTION\<close>, and the digest has \<open>active_sections\<close> with the value 1, where the
  claim has no section count. The parts of the claim on the preview and on
  \<open>risk_count\<close> hold (\<open>ai_summary_preview\<close>).
\<close>

theorem ai_summary_counts_unresolved_section:
  "column_of (auto_detect_schema lower_ascii (columns shared_raw)) RSection = None
   \<and> normalize_data fmt1 lower_ascii shared_raw (auto_detect_schema lower_ascii (columns shared_raw))
       = Inr shared_out
   \<and> series shared_out ''SECTION'' = Some [VStr ''Unknown'', VStr ''Unknown'']
   \<and> build_ai_summary shared_out ''overall'' = Some shared_digest
   \<and> map_of shared_digest ''active_sections'' = Some (JInt 1)"
proof -
  have a: "column_of (auto_detect_schema lower_ascii (columns shared_raw)) RSection = None"
    by code_simp
  have b: "map_of shared_digest ''active_sections'' = Some (JInt 1)" by (simp add: shared_digest_def)
  have c: "series shared_out ''SECTION'' = Some [VStr ''Unknown'', VStr ''Unknown'']" by code_simp
  show ?thesis using a b c shared_out_eval shared_digest_eval by simp
qed

end
